theory Spec2Isabelle
  imports Complex_Main "HOL-Library.Sublist" "HOL-Library.Multiset"
begin

section \<open>Values of the host language\<close>

text \<open>
  The merger is TypeScript. Strings are modelled as \<open>string\<close> (lists of 8-bit characters),
  numbers that the code only compares or copies as \<open>rat\<close>, counters as \<open>nat\<close>.
  A value produced by \<open>JSON.parse\<close> is a \<open>json\<close>; the JavaScript value \<open>undefined\<close>
  is \<open>None\<close> of \<open>json option\<close>. An object is an association list in property order,
  read with \<open>map_of\<close>.
\<close>

datatype json =
    JNull
  | JBool bool
  | JNum rat
  | JStr string
  | JArr "json list"
  | JObj "(string \<times> json) list"

text \<open>What a \<open>throw\<close> carries: an \<open>Error\<close> instance with its message, or any other value.\<close>

datatype thrown = Error string | NonError

text \<open>A browser \<open>File\<close>: its name, its MIME type and its bytes.\<close>

record File =
  name :: string
  type :: string
  content :: string

subsection \<open>String operations\<close>

text \<open>
  Letters are lowered within ASCII. Of the letters outside it only the Kelvin sign
  lowers to an ASCII letter, \<open>k\<close>, which none of the strings compared below contains.
\<close>

definition toLowerChar :: "char \<Rightarrow> char" where
  "toLowerChar c =
     (case map_of (zip ''ABCDEFGHIJKLMNOPQRSTUVWXYZ'' ''abcdefghijklmnopqrstuvwxyz'') c of
        None \<Rightarrow> c
      | Some l \<Rightarrow> l)"

definition toLowerCase :: "string \<Rightarrow> string" where
  "toLowerCase s = map toLowerChar s"

text \<open>\<open>s.split(c)\<close>: the pieces between the separators; never an empty array.\<close>

fun split :: "char \<Rightarrow> string \<Rightarrow> string list" where
  "split c [] = [[]]"
| "split c (x # xs) =
     (if x = c then [] # split c xs
      else (case split c xs of [] \<Rightarrow> [[x]] | w # ws \<Rightarrow> (x # w) # ws))"

text \<open>\<open>arr.pop() || ''\<close>: the last piece, the empty string for an empty array.\<close>

definition pop_or_empty :: "string list \<Rightarrow> string" where
  "pop_or_empty ps = (case rev ps of [] \<Rightarrow> [] | p # _ \<Rightarrow> p)"

definition startsWith :: "string \<Rightarrow> string \<Rightarrow> bool" where
  "startsWith s p = prefix p s"

fun str_includes :: "string \<Rightarrow> string \<Rightarrow> bool" where
  "str_includes [] sub = (sub = [])"
| "str_includes (c # cs) sub = (prefix sub (c # cs) \<or> str_includes cs sub)"

text \<open>
  The white space and line terminators that \<open>trim\<close> removes, in UTF-8: U+0009 to
  U+000D, U+0020, U+00A0, U+1680, U+2000 to U+200A, U+2028, U+2029, U+202F, U+205F,
  U+3000 and U+FEFF. The last is the byte order mark, so a mark that \<open>text()\<close> drops
  from the head of a file is gone after \<open>trim\<close> as well.
\<close>

definition white_space :: "string list" where
  "white_space =
     [[CHR 0x09], [CHR 0x0A], [CHR 0x0B], [CHR 0x0C], [CHR 0x0D], [CHR 0x20],
      [CHR 0xC2, CHR 0xA0], [CHR 0xE1, CHR 0x9A, CHR 0x80],
      [CHR 0xE2, CHR 0x80, CHR 0x80], [CHR 0xE2, CHR 0x80, CHR 0x81],
      [CHR 0xE2, CHR 0x80, CHR 0x82], [CHR 0xE2, CHR 0x80, CHR 0x83],
      [CHR 0xE2, CHR 0x80, CHR 0x84], [CHR 0xE2, CHR 0x80, CHR 0x85],
      [CHR 0xE2, CHR 0x80, CHR 0x86], [CHR 0xE2, CHR 0x80, CHR 0x87],
      [CHR 0xE2, CHR 0x80, CHR 0x88], [CHR 0xE2, CHR 0x80, CHR 0x89],
      [CHR 0xE2, CHR 0x80, CHR 0x8A], [CHR 0xE2, CHR 0x80, CHR 0xA8],
      [CHR 0xE2, CHR 0x80, CHR 0xA9], [CHR 0xE2, CHR 0x80, CHR 0xAF],
      [CHR 0xE2, CHR 0x81, CHR 0x9F], [CHR 0xE3, CHR 0x80, CHR 0x80],
      [CHR 0xEF, CHR 0xBB, CHR 0xBF]]"

text \<open>
  Removing leading sequences of a list, at most \<open>n\<close> of them; every round removes at
  least one byte, so \<open>length s\<close> rounds leave none.
\<close>

fun strip :: "string list \<Rightarrow> nat \<Rightarrow> string \<Rightarrow> string" where
  "strip ws 0 s = s"
| "strip ws (Suc n) s =
     (case List.find (\<lambda>w. prefix w s) ws of
        None \<Rightarrow> s
      | Some w \<Rightarrow> strip ws n (drop (length w) s))"

definition trim :: "string \<Rightarrow> string" where
  "trim s =
     (let t = strip white_space (length s) s
      in rev (strip (map rev white_space) (length t) (rev t)))"

text \<open>\<open>file.slice(0, n).text()\<close>: the first \<open>n\<close> bytes.\<close>

definition slice_text :: "File \<Rightarrow> nat \<Rightarrow> string" where
  "slice_text f n = take n (content f)"

subsection \<open>Reading parsed JSON the way JavaScript does\<close>

text \<open>\<open>!!v\<close>.\<close>

fun truthy :: "json \<Rightarrow> bool" where
  "truthy JNull = False"
| "truthy (JBool b) = b"
| "truthy (JNum n) = (n \<noteq> 0)"
| "truthy (JStr s) = (s \<noteq> [])"
| "truthy (JArr xs) = True"
| "truthy (JObj kv) = True"

text \<open>
  \<open>v.k\<close> for a value \<open>v\<close> that is not \<open>null\<close> and a key \<open>k\<close> that is no built-in
  property (all keys read by the merger are such): only an object can hold it.
\<close>

fun get_prop :: "json \<Rightarrow> string \<Rightarrow> json option" where
  "get_prop (JObj kv) k = map_of kv k"
| "get_prop v k = None"

text \<open>\<open>v[0]\<close> for a value \<open>v\<close> that is not \<open>null\<close>.\<close>

fun elem0 :: "json \<Rightarrow> json option" where
  "elem0 (JArr xs) = (case xs of [] \<Rightarrow> None | x # _ \<Rightarrow> Some x)"
| "elem0 (JStr s) = (case s of [] \<Rightarrow> None | c # _ \<Rightarrow> Some (JStr [c]))"
| "elem0 (JObj kv) = map_of kv ''0''"
| "elem0 v = None"

text \<open>
  \<open>k in v\<close>: a \<open>TypeError\<close> (here \<open>None\<close>) unless \<open>v\<close> is an object or an array; an array
  parsed from JSON has none of the keys the merger asks for.
\<close>

fun has_key :: "string \<Rightarrow> json \<Rightarrow> bool option" where
  "has_key k (JObj kv) = Some (k \<in> fst ` set kv)"
| "has_key k (JArr xs) = Some False"
| "has_key k v = None"

fun isArray :: "json \<Rightarrow> bool" where
  "isArray (JArr xs) = True"
| "isArray v = False"

text \<open>Short-circuit \<open>&&\<close> and \<open>||\<close> on truth values whose evaluation may throw.\<close>

definition js_and :: "bool option \<Rightarrow> bool option \<Rightarrow> bool option" where
  "js_and a b = (case a of None \<Rightarrow> None | Some False \<Rightarrow> Some False | Some True \<Rightarrow> b)"

definition js_or :: "bool option \<Rightarrow> bool option \<Rightarrow> bool option" where
  "js_or a b = (case a of None \<Rightarrow> None | Some True \<Rightarrow> Some True | Some False \<Rightarrow> b)"

text \<open>\<open>v && rest(v)\<close> for a possibly undefined \<open>v\<close>.\<close>

definition guarded :: "json option \<Rightarrow> (json \<Rightarrow> bool option) \<Rightarrow> bool option" where
  "guarded ov rest =
     (case ov of None \<Rightarrow> Some False | Some v \<Rightarrow> if truthy v then rest v else Some False)"

text \<open>\<open>try { return e } catch { return false }\<close>.\<close>

definition catch_false :: "bool option \<Rightarrow> bool" where
  "catch_false r = (case r of None \<Rightarrow> False | Some b \<Rightarrow> b)"

text \<open>
  \<open>v.length\<close> for a value \<open>v\<close> that is not \<open>null\<close>: an array and a string have one (only
  whether it is zero matters here), an object may hold the key, a number and a boolean
  have none.
\<close>

fun js_length :: "json \<Rightarrow> json option" where
  "js_length (JArr xs) = Some (JNum (of_nat (length xs)))"
| "js_length (JStr s) = Some (JNum (of_nat (length s)))"
| "js_length (JObj kv) = map_of kv ''length''"
| "js_length v = None"

text \<open>\<open>v.length === 0\<close>.\<close>

definition length_is_zero :: "json \<Rightarrow> bool" where
  "length_is_zero v = (js_length v = Some (JNum 0))"

section \<open>The environment\<close>

text \<open>
  What the module imports or takes from the browser and the engine: \<open>JSON.parse\<close>, the
  four external decoders, the metadata a video element reports for a file (\<open>None\<close> when
  it fires \<open>onerror\<close>), the message the engine puts into the \<open>TypeError\<close> of a property
  read on \<open>null\<close> or \<open>undefined\<close>, the number a string stands for and the number an
  object or array converts to (\<open>None\<close> is \<open>NaN\<close>; the conversion of an object may throw),
  the operator \<open>+\<close> on two values, and the clock.
\<close>

record env =
  JSON_parse :: "string \<Rightarrow> thrown + json"
  parseWebVTT :: "File \<Rightarrow> thrown + json list"
  parseRTTM :: "File \<Rightarrow> thrown + json list"
  parseCOCOPersonData :: "File \<Rightarrow> thrown + json list"
  parseSceneDetection :: "File \<Rightarrow> thrown + json list"
  loadedmetadata :: "File \<Rightarrow> (rat \<times> rat \<times> rat) option"
  typeErrorMessage :: "string \<Rightarrow> string"
  stringToNumber :: "string \<Rightarrow> rat option"
  objectToNumber :: "json \<Rightarrow> thrown + rat option"
  js_plus :: "json \<Rightarrow> json \<Rightarrow> thrown + json"
  startTime :: int
  endTime :: int
  isoNow :: string

text \<open>The number a value converts to in a comparison.\<close>

definition to_number :: "env \<Rightarrow> json \<Rightarrow> thrown + rat option" where
  "to_number E v =
     (case v of
        JNull \<Rightarrow> Inr (Some 0)
      | JBool b \<Rightarrow> Inr (Some (if b then 1 else 0))
      | JNum n \<Rightarrow> Inr (Some n)
      | JStr s \<Rightarrow> Inr (stringToNumber E s)
      | _ \<Rightarrow> objectToNumber E v)"

text \<open>\<open>v.length > 0\<close> for a value \<open>v\<close> that is not \<open>null\<close>; \<open>undefined\<close> and \<open>NaN\<close> compare false.\<close>

definition length_gt0 :: "env \<Rightarrow> json \<Rightarrow> thrown + bool" where
  "length_gt0 E v =
     (case js_length v of
        None \<Rightarrow> Inr False
      | Some l \<Rightarrow>
          (case to_number E l of
             Inl e \<Rightarrow> Inl e
           | Inr None \<Rightarrow> Inr False
           | Inr (Some n) \<Rightarrow> Inr (0 < n)))"

section \<open>Content sniffers\<close>

definition isValidWebVTT :: "File \<Rightarrow> bool" where
  "isValidWebVTT f = startsWith (trim (slice_text f 100)) ''WEBVTT''"

definition isValidRTTM :: "File \<Rightarrow> bool" where
  "isValidRTTM f = str_includes (slice_text f 1000) ''SPEAKER''"

definition coco_shape :: "json \<Rightarrow> bool option" where
  "coco_shape data =
     (case data of
        JArr xs \<Rightarrow>
          js_or (Some (xs = []))
            (guarded (elem0 data) (\<lambda>x. js_and (has_key ''keypoints'' x) (has_key ''bbox'' x)))
      | JNull \<Rightarrow> None
      | _ \<Rightarrow>
          js_or (guarded (get_prop data ''annotations'') (\<lambda>a. Some (isArray a)))
                (guarded (get_prop data ''results'') (\<lambda>r. Some (isArray r))))"

definition isValidCOCOPersonData :: "env \<Rightarrow> File \<Rightarrow> bool" where
  "isValidCOCOPersonData E f =
     (case JSON_parse E (slice_text f 2000) of
        Inl e \<Rightarrow> False
      | Inr data \<Rightarrow> catch_false (coco_shape data))"

definition scene_shape :: "json \<Rightarrow> bool option" where
  "scene_shape data =
     (case data of
        JArr xs \<Rightarrow>
          js_or (Some (xs = []))
            (guarded (elem0 data)
               (\<lambda>x. js_or (has_key ''start_time'' x) (has_key ''startTime'' x)))
      | JNull \<Rightarrow> None
      | _ \<Rightarrow>
          js_or (guarded (get_prop data ''results'') (\<lambda>r. Some (isArray r)))
            (js_or (guarded (get_prop data ''scenes'') (\<lambda>s. Some (isArray s)))
               (guarded (get_prop data ''annotations'')
                  (\<lambda>a. guarded (elem0 a) (has_key ''scene_type'')))))"

definition isValidSceneDetection :: "env \<Rightarrow> File \<Rightarrow> bool" where
  "isValidSceneDetection E f =
     (case JSON_parse E (slice_text f 2000) of
        Inl e \<Rightarrow> False
      | Inr data \<Rightarrow> catch_false (scene_shape data))"

definition complete_results_shape :: "json \<Rightarrow> bool option" where
  "complete_results_shape data =
     (case data of
        JNull \<Rightarrow> None
      | _ \<Rightarrow>
          guarded (get_prop data ''video_path'') (\<lambda>_.
          guarded (get_prop data ''pipeline_results'') (\<lambda>_.
          guarded (get_prop data ''config'') (\<lambda>_.
          guarded (get_prop data ''start_time'') (\<lambda>_.
            Some (get_prop data ''total_duration'' \<noteq> None))))))"

definition isValidCompleteResults :: "env \<Rightarrow> File \<Rightarrow> bool" where
  "isValidCompleteResults E f =
     (case JSON_parse E (content f) of
        Inl e \<Rightarrow> False
      | Inr data \<Rightarrow> catch_false (complete_results_shape data))"

definition face_shape :: "json \<Rightarrow> bool option" where
  "face_shape data =
     (case data of
        JArr xs \<Rightarrow>
          js_or (Some (xs = []))
            (guarded (elem0 data) (\<lambda>x. js_and (has_key ''face_id'' x) (has_key ''attributes'' x)))
      | JNull \<Rightarrow> None
      | _ \<Rightarrow>
          js_or (guarded (get_prop data ''annotations'') (\<lambda>a. guarded (elem0 a) (has_key ''face_id'')))
                (guarded (get_prop data ''results'') (\<lambda>r. guarded (elem0 r) (has_key ''face_id''))))"

definition isValidFaceAnalysis :: "env \<Rightarrow> File \<Rightarrow> bool" where
  "isValidFaceAnalysis E f =
     (case JSON_parse E (slice_text f 2000) of
        Inl e \<Rightarrow> False
      | Inr data \<Rightarrow> catch_false (face_shape data))"

section \<open>The file classifier\<close>

datatype file_type =
    Video
  | PersonTracking
  | SpeechRecognition
  | SpeakerDiarization
  | SceneDetection
  | FaceAnalysis
  | CompleteResults
  | Audio
  | Unknown

fun type_string :: "file_type \<Rightarrow> string" where
  "type_string Video = ''video''"
| "type_string PersonTracking = ''person_tracking''"
| "type_string SpeechRecognition = ''speech_recognition''"
| "type_string SpeakerDiarization = ''speaker_diarization''"
| "type_string SceneDetection = ''scene_detection''"
| "type_string FaceAnalysis = ''face_analysis''"
| "type_string CompleteResults = ''complete_results''"
| "type_string Audio = ''audio''"
| "type_string Unknown = ''unknown''"

record DetectedFile =
  file_of :: File
  dtype :: file_type
  pipeline :: "string option"
  confidence :: rat

definition detected :: "File \<Rightarrow> file_type \<Rightarrow> rat \<Rightarrow> DetectedFile" where
  "detected f t c = \<lparr>file_of = f, dtype = t, pipeline = Some (type_string t), confidence = c\<rparr>"

definition detectJSONType :: "env \<Rightarrow> File \<Rightarrow> DetectedFile" where
  "detectJSONType E f =
     (if isValidCompleteResults E f then detected f CompleteResults 0.95
      else case JSON_parse E (slice_text f 5000) of
        Inl e \<Rightarrow> \<lparr>file_of = f, dtype = Unknown, pipeline = None, confidence = 0.0\<rparr>
      | Inr data \<Rightarrow>
          if isValidFaceAnalysis E f then detected f FaceAnalysis 0.8
          else if isValidCOCOPersonData E f then detected f PersonTracking 0.8
          else if isValidSceneDetection E f then detected f SceneDetection 0.8
          else if str_includes (name f) ''complete_results'' then detected f CompleteResults 0.7
          else if str_includes (name f) ''face_annotations'' \<or> str_includes (name f) ''laion_face''
            then detected f FaceAnalysis 0.6
          else if str_includes (name f) ''person'' \<or> str_includes (name f) ''tracking''
            then detected f PersonTracking 0.5
          else if str_includes (name f) ''scene'' then detected f SceneDetection 0.5
          else \<lparr>file_of = f, dtype = Unknown, pipeline = None, confidence = 0.2\<rparr>)"

definition detectFileType :: "env \<Rightarrow> File \<Rightarrow> DetectedFile" where
  "detectFileType E f =
     (let extension = pop_or_empty (split CHR ''.'' (toLowerCase (name f)));
          mimeType = toLowerCase (type f)
      in if extension \<in> set [''mp4'', ''webm'', ''avi'', ''mov''] \<or> startsWith mimeType ''video/''
           then \<lparr>file_of = f, dtype = Video, pipeline = None, confidence = 0.95\<rparr>
         else if extension \<in> set [''wav'', ''mp3'', ''aac'', ''ogg''] \<or> startsWith mimeType ''audio/''
           then \<lparr>file_of = f, dtype = Audio, pipeline = None, confidence = 0.95\<rparr>
         else if extension = ''vtt'' \<or> str_includes (name f) ''speech_recognition''
           then detected f SpeechRecognition (if isValidWebVTT f then 0.9 else 0.3)
         else if extension = ''rttm'' \<or> str_includes (name f) ''speaker_diarization''
           then detected f SpeakerDiarization (if isValidRTTM f then 0.9 else 0.3)
         else if extension = ''json'' \<or> mimeType = ''application/json''
           then detectJSONType E f
         else \<lparr>file_of = f, dtype = Unknown, pipeline = None, confidence = 0.0\<rparr>)"

subsection \<open>Batch classification\<close>

text \<open>
  \<open>Array.prototype.sort\<close> with a comparator: a stable sort (ECMAScript 2019), here by
  insertion. An element goes in front of the first one the comparator does not put
  before it.
\<close>

fun sort_insert :: "('a \<Rightarrow> 'a \<Rightarrow> rat) \<Rightarrow> 'a \<Rightarrow> 'a list \<Rightarrow> 'a list" where
  "sort_insert cmp x [] = [x]"
| "sort_insert cmp x (y # ys) =
     (if cmp x y \<le> 0 then x # y # ys else y # sort_insert cmp x ys)"

definition array_sort :: "('a \<Rightarrow> 'a \<Rightarrow> rat) \<Rightarrow> 'a list \<Rightarrow> 'a list" where
  "array_sort cmp xs = foldr (sort_insert cmp) xs []"

definition batchDetectFileTypes :: "env \<Rightarrow> File list \<Rightarrow> DetectedFile list" where
  "batchDetectFileTypes E files =
     (let results = map (detectFileType E) files
      in array_sort (\<lambda>a b. confidence b - confidence a) results)"

subsection \<open>Summary view\<close>

record summary_entry =
  entry_name :: string
  entry_file :: string
  entry_confidence :: rat

record files_summary =
  sum_video :: "string option"
  sum_audio :: "string option"
  sum_pipelines :: "summary_entry list"
  sum_unknown :: "string list"

text \<open>\<open>detected.pipeline || detected.type\<close>: an absent or empty label falls back to the type.\<close>

definition pipeline_or_type :: "DetectedFile \<Rightarrow> string" where
  "pipeline_or_type d =
     (case pipeline d of
        None \<Rightarrow> type_string (dtype d)
      | Some p \<Rightarrow> if p = [] then type_string (dtype d) else p)"

definition summary_step :: "files_summary \<Rightarrow> DetectedFile \<Rightarrow> files_summary" where
  "summary_step summary d =
     (case dtype d of
        Video \<Rightarrow> summary\<lparr>sum_video := Some (name (file_of d))\<rparr>
      | Audio \<Rightarrow> summary\<lparr>sum_audio := Some (name (file_of d))\<rparr>
      | Unknown \<Rightarrow> summary\<lparr>sum_unknown := sum_unknown summary @ [name (file_of d)]\<rparr>
      | _ \<Rightarrow> summary\<lparr>sum_pipelines := sum_pipelines summary @
                 [\<lparr>entry_name = pipeline_or_type d, entry_file = name (file_of d),
                   entry_confidence = confidence d\<rparr>]\<rparr>)"

definition getFilesSummary :: "DetectedFile list \<Rightarrow> files_summary" where
  "getFilesSummary detectedFiles =
     foldl summary_step
       \<lparr>sum_video = None, sum_audio = None, sum_pipelines = [], sum_unknown = []\<rparr>
       detectedFiles"

section \<open>Extractors local to the module\<close>

text \<open>
  The annotation types are declared outside the module; an annotation is a \<open>json\<close> value
  here. What the extractor hands on is whatever the bundle holds, sequence or not.
\<close>

record CompleteResultsData =
  cr_personTracking :: json
  cr_faceAnalysis :: json
  cr_sceneDetection :: json
  cr_config :: "json option"
  cr_processingTime :: json
  cr_totalDuration :: "json option"

text \<open>\<open>section?.results || []\<close>: the value under \<open>results\<close> when it is truthy, else \<open>[]\<close>.\<close>

definition section_results :: "json option \<Rightarrow> json" where
  "section_results sec =
     (case sec of
        None \<Rightarrow> JArr []
      | Some JNull \<Rightarrow> JArr []
      | Some v \<Rightarrow>
          (case get_prop v ''results'' of
             None \<Rightarrow> JArr []
           | Some r \<Rightarrow> if truthy r then r else JArr []))"

text \<open>\<open>Object.values(v)\<close>; an object lists each key once, in enumeration order.\<close>

fun object_values :: "json \<Rightarrow> json list" where
  "object_values (JObj kv) = map snd kv"
| "object_values (JArr xs) = xs"
| "object_values (JStr s) = map (\<lambda>c. JStr [c]) s"
| "object_values v = []"

text \<open>\<open>result?.processing_time || 0\<close>.\<close>

definition time_or_zero :: "json \<Rightarrow> json" where
  "time_or_zero result =
     (case result of
        JNull \<Rightarrow> JNum 0
      | _ \<Rightarrow>
          (case get_prop result ''processing_time'' of
             None \<Rightarrow> JNum 0
           | Some t \<Rightarrow> if truthy t then t else JNum 0))"

text \<open>\<open>values.reduce((sum, result) => sum + (result?.processing_time || 0), sum0)\<close>.\<close>

fun reduce_times :: "env \<Rightarrow> json \<Rightarrow> json list \<Rightarrow> thrown + json" where
  "reduce_times E acc [] = Inr acc"
| "reduce_times E acc (result # rest) =
     (case js_plus E acc (time_or_zero result) of
        Inl e \<Rightarrow> Inl e
      | Inr acc' \<Rightarrow> reduce_times E acc' rest)"

definition parseCompleteResults :: "env \<Rightarrow> File \<Rightarrow> thrown + CompleteResultsData" where
  "parseCompleteResults E f =
     (case JSON_parse E (content f) of
        Inl e \<Rightarrow> Inl e
      | Inr parsed \<Rightarrow>
          (case parsed of
             JNull \<Rightarrow> Inl (Error (typeErrorMessage E ''pipeline_results''))
           | _ \<Rightarrow>
               (case get_prop parsed ''pipeline_results'' of
                  None \<Rightarrow> Inl (Error (typeErrorMessage E ''person''))
                | Some JNull \<Rightarrow> Inl (Error (typeErrorMessage E ''person''))
                | Some pr \<Rightarrow>
                    (case reduce_times E (JNum 0) (object_values pr) of
                       Inl e \<Rightarrow> Inl e
                     | Inr summed \<Rightarrow>
                         Inr \<lparr>cr_personTracking = section_results (get_prop pr ''person''),
                              cr_faceAnalysis = section_results (get_prop pr ''face''),
                              cr_sceneDetection = section_results (get_prop pr ''scene''),
                              cr_config = get_prop parsed ''config'',
                              cr_processingTime = summed,
                              cr_totalDuration = get_prop parsed ''total_duration''\<rparr>))))"

definition parseFaceAnalysis :: "env \<Rightarrow> File \<Rightarrow> thrown + json list" where
  "parseFaceAnalysis E f =
     (case JSON_parse E (content f) of
        Inl e \<Rightarrow> Inl e
      | Inr parsed \<Rightarrow>
          (case parsed of
             JArr xs \<Rightarrow> Inr xs
           | JNull \<Rightarrow> Inl (Error (typeErrorMessage E ''annotations''))
           | _ \<Rightarrow>
               (case get_prop parsed ''annotations'' of
                  Some (JArr xs) \<Rightarrow> Inr xs
                | _ \<Rightarrow> (case get_prop parsed ''results'' of Some (JArr xs) \<Rightarrow> Inr xs | _ \<Rightarrow> Inr []))))"

record VideoInfo =
  filename :: string
  duration :: rat
  width :: rat
  height :: rat
  frame_rate :: rat

definition extractVideoInfo :: "env \<Rightarrow> File \<Rightarrow> thrown + VideoInfo" where
  "extractVideoInfo E videoFile =
     (case loadedmetadata E videoFile of
        None \<Rightarrow> Inl (Error ''Failed to load video metadata'')
      | Some (d, w, h) \<Rightarrow>
          Inr \<lparr>filename = name videoFile, duration = d, width = w, height = h, frame_rate = 30\<rparr>)"

section \<open>The merge engine\<close>

record AnnotationMetadata =
  created :: string
  version :: string
  pipelines :: "string list"
  source :: string
  processing_config :: "json option"
  processing_time :: "json option"
  total_duration :: "json option"

record StandardAnnotationData =
  video_info :: VideoInfo
  metadata :: AnnotationMetadata
  person_tracking :: "json option"
  speech_recognition :: "json list option"
  speaker_diarization :: "json list option"
  scene_detection :: "json option"
  face_analysis :: "json option"
  audio_file :: "File option"

text \<open>
  The \<open>metadata\<close> of a \<open>ParseResult\<close>. Its fields share their names with local
  variables of the merge and carry the prefix \<open>meta_\<close> here.
\<close>

record ParseMetadata =
  meta_filesProcessed :: nat
  meta_pipelinesFound :: "string list"
  meta_warnings :: "string list"
  meta_processingTime :: int

record ParseResult =
  data :: StandardAnnotationData
  result_metadata :: ParseMetadata

text \<open>
  What a run does besides computing its result: it reaches the calls
  \<open>onProgress?.(stage, progress, total)\<close>, and it calls decoders, extractor and video
  probe. The trace lists these in order; a progress entry is there whether or not a
  callback was passed and holds the value the callback threw, if it threw. The awaited
  calls run one after the other, so a run is a sequence of steps. Console output is
  left out.
\<close>

datatype callee =
    ParseCompleteResults
  | ParseWebVTT
  | ParseRTTM
  | ParseCOCOPersonData
  | ParseSceneDetection
  | ParseFaceAnalysis
  | ExtractVideoInfo

datatype event = Progress string nat nat "thrown option" | Call callee File

text \<open>
  The optional callback: it is given the stage, the progress and the total, and returns
  or throws; what it does may depend on all that happened before.
\<close>

type_synonym progress_callback = "event list \<Rightarrow> string \<Rightarrow> nat \<Rightarrow> nat \<Rightarrow> thrown option"

text \<open>
  An element of the array \<open>detectedFiles\<close> is an object: its identity and the record it
  holds. Two elements are identical (\<open>===\<close>) when they are the same object; the same
  object may stand at several places of the array.
\<close>

type_synonym detected_object = "nat \<times> DetectedFile"

text \<open>The local variables of \<open>mergeAnnotationData\<close>, and the trace of the run so far.\<close>

record merge_state =
  warnings :: "string list"
  pipelinesFound :: "string list"
  videoFile :: "File option"
  audioFile :: "File option"
  personTracking :: json
  speechRecognition :: "json list"
  speakerDiarization :: "json list"
  sceneDetection :: json
  faceAnalysis :: json
  processingConfig :: "json option"
  processingTime :: "json option"
  totalDuration :: "json option"
  processedFiles :: nat
  events :: "event list"

definition initial_state :: merge_state where
  "initial_state =
     \<lparr>warnings = [], pipelinesFound = [], videoFile = None, audioFile = None,
      personTracking = JArr [], speechRecognition = [], speakerDiarization = [],
      sceneDetection = JArr [], faceAnalysis = JArr [], processingConfig = None,
      processingTime = None, totalDuration = None, processedFiles = 0, events = []\<rparr>"

definition emit :: "event \<Rightarrow> merge_state \<Rightarrow> merge_state" where
  "emit e s = s\<lparr>events := events s @ [e]\<rparr>"

definition push_warning :: "string \<Rightarrow> merge_state \<Rightarrow> merge_state" where
  "push_warning w s = s\<lparr>warnings := warnings s @ [w]\<rparr>"

definition push_pipeline :: "string \<Rightarrow> merge_state \<Rightarrow> merge_state" where
  "push_pipeline p s = s\<lparr>pipelinesFound := pipelinesFound s @ [p]\<rparr>"

text \<open>\<open>onProgress?.(stage, progress, total)\<close>: what it throws, if there is a callback and it throws.\<close>

definition call_progress ::
  "progress_callback option \<Rightarrow> string \<Rightarrow> nat \<Rightarrow> nat \<Rightarrow> merge_state \<Rightarrow> thrown option" where
  "call_progress onProgress stage k n s =
     (case onProgress of
        None \<Rightarrow> None
      | Some callback \<Rightarrow> callback (events s) stage k n)"

text \<open>\<open>error instanceof Error ? error.message : 'Unknown error'\<close>.\<close>

definition error_text :: "thrown \<Rightarrow> string" where
  "error_text e = (case e of Error m \<Rightarrow> m | NonError \<Rightarrow> ''Unknown error'')"

definition complete_results_warning :: "File \<Rightarrow> thrown \<Rightarrow> string" where
  "complete_results_warning f e =
     ''Failed to parse complete results '' @ name f @ '': '' @ error_text e"

definition parse_warning :: "File \<Rightarrow> thrown \<Rightarrow> string" where
  "parse_warning f e = ''Failed to parse '' @ name f @ '': '' @ error_text e"

definition unknown_warning :: "File \<Rightarrow> string" where
  "unknown_warning f = ''Could not determine type of file: '' @ name f"

definition processing_label :: "File \<Rightarrow> string" where
  "processing_label f = ''Processing '' @ name f"

text \<open>
  The \<open>try\<close> block of \<open>if (completeResultsFile)\<close> after the extractor has returned, line
  by line: the assignments, the comparison in the debug output, two more assignments,
  the three pushes and the increment. A comparison that throws ends the block with what
  was assigned so far; \<open>Inl\<close> is the value thrown and the state reached.
\<close>

definition adoptCompleteResults ::
  "env \<Rightarrow> CompleteResultsData \<Rightarrow> merge_state \<Rightarrow> thrown \<times> merge_state + merge_state" where
  "adoptCompleteResults E completeResults s =
     (let s1 = s\<lparr>personTracking := cr_personTracking completeResults,
                  faceAnalysis := cr_faceAnalysis completeResults,
                  sceneDetection := cr_sceneDetection completeResults,
                  processingConfig := cr_config completeResults\<rparr>
      in case (if truthy (personTracking s1) then length_gt0 E (personTracking s1) else Inr False) of
           Inl e \<Rightarrow> Inl (e, s1)
         | Inr logged \<Rightarrow>
             (let s2 = s1\<lparr>processingTime := Some (cr_processingTime completeResults),
                          totalDuration := cr_totalDuration completeResults\<rparr>
              in case length_gt0 E (personTracking s2) of
                   Inl e \<Rightarrow> Inl (e, s2)
                 | Inr person \<Rightarrow>
                     (let s3 = (if person then push_pipeline ''person_tracking'' s2 else s2)
                      in case length_gt0 E (faceAnalysis s3) of
                           Inl e \<Rightarrow> Inl (e, s3)
                         | Inr face \<Rightarrow>
                             (let s4 = (if face then push_pipeline ''face_analysis'' s3 else s3)
                              in case length_gt0 E (sceneDetection s4) of
                                   Inl e \<Rightarrow> Inl (e, s4)
                                 | Inr scene \<Rightarrow>
                                     (let s5 = (if scene then push_pipeline ''scene_detection'' s4
                                                else s4)
                                      in Inr (s5\<lparr>processedFiles := processedFiles s5 + 1\<rparr>))))))"

text \<open>The block guarded by \<open>if (completeResultsFile)\<close>, with its \<open>catch\<close>.\<close>

definition processCompleteResults ::
  "env \<Rightarrow> progress_callback option \<Rightarrow> nat \<Rightarrow> DetectedFile \<Rightarrow> merge_state \<Rightarrow> merge_state" where
  "processCompleteResults E onProgress totalFiles completeResultsFile s =
     (let f = file_of completeResultsFile;
          thrown = call_progress onProgress (processing_label f) (processedFiles s) totalFiles s;
          s1 = emit (Progress (processing_label f) (processedFiles s) totalFiles thrown) s
      in case thrown of
           Some e \<Rightarrow> push_warning (complete_results_warning f e) s1
         | None \<Rightarrow>
             (let s2 = emit (Call ParseCompleteResults f) s1
              in case parseCompleteResults E f of
                   Inl e \<Rightarrow> push_warning (complete_results_warning f e) s2
                 | Inr completeResults \<Rightarrow>
                     (case adoptCompleteResults E completeResults s2 of
                        Inl (e, s3) \<Rightarrow> push_warning (complete_results_warning f e) s3
                      | Inr s3 \<Rightarrow> s3)))"

text \<open>The \<open>switch\<close> of the loop body.\<close>

definition switch_type :: "env \<Rightarrow> DetectedFile \<Rightarrow> merge_state \<Rightarrow> merge_state" where
  "switch_type E detectedFile s =
     (let f = file_of detectedFile in
      case dtype detectedFile of
        Video \<Rightarrow> s\<lparr>videoFile := Some f\<rparr>
      | Audio \<Rightarrow> s\<lparr>audioFile := Some f\<rparr>
      | PersonTracking \<Rightarrow>
          if length_is_zero (personTracking s) then
            (let s1 = emit (Call ParseCOCOPersonData f) s
             in case parseCOCOPersonData E f of
                  Inl e \<Rightarrow> push_warning (parse_warning f e) s1
                | Inr r \<Rightarrow> push_pipeline ''person_tracking'' (s1\<lparr>personTracking := JArr r\<rparr>))
          else s
      | FaceAnalysis \<Rightarrow>
          if length_is_zero (faceAnalysis s) then
            (let s1 = emit (Call ParseFaceAnalysis f) s
             in case parseFaceAnalysis E f of
                  Inl e \<Rightarrow> push_warning (parse_warning f e) s1
                | Inr r \<Rightarrow> push_pipeline ''face_analysis'' (s1\<lparr>faceAnalysis := JArr r\<rparr>))
          else s
      | SpeechRecognition \<Rightarrow>
          (let s1 = emit (Call ParseWebVTT f) s
           in case parseWebVTT E f of
                Inl e \<Rightarrow> push_warning (parse_warning f e) s1
              | Inr r \<Rightarrow> push_pipeline ''speech_recognition'' (s1\<lparr>speechRecognition := r\<rparr>))
      | SpeakerDiarization \<Rightarrow>
          (let s1 = emit (Call ParseRTTM f) s
           in case parseRTTM E f of
                Inl e \<Rightarrow> push_warning (parse_warning f e) s1
              | Inr r \<Rightarrow> push_pipeline ''speaker_diarization'' (s1\<lparr>speakerDiarization := r\<rparr>))
      | SceneDetection \<Rightarrow>
          if length_is_zero (sceneDetection s) then
            (let s1 = emit (Call ParseSceneDetection f) s
             in case parseSceneDetection E f of
                  Inl e \<Rightarrow> push_warning (parse_warning f e) s1
                | Inr r \<Rightarrow> push_pipeline ''scene_detection'' (s1\<lparr>sceneDetection := JArr r\<rparr>))
          else s
      | CompleteResults \<Rightarrow> s
      | Unknown \<Rightarrow> push_warning (unknown_warning f) s)"

text \<open>
  The loop body after the identity test: the \<open>try\<close> block, in which a callback that
  throws skips the \<open>switch\<close>, its \<open>catch\<close>, and the increment.
\<close>

definition processFile ::
  "env \<Rightarrow> progress_callback option \<Rightarrow> nat \<Rightarrow> DetectedFile \<Rightarrow> merge_state \<Rightarrow> merge_state" where
  "processFile E onProgress totalFiles detectedFile s =
     (let f = file_of detectedFile;
          thrown = call_progress onProgress (processing_label f) (processedFiles s) totalFiles s;
          s1 = emit (Progress (processing_label f) (processedFiles s) totalFiles thrown) s;
          s2 = (case thrown of
                  Some e \<Rightarrow> push_warning (parse_warning f e) s1
                | None \<Rightarrow> switch_type E detectedFile s1)
      in s2\<lparr>processedFiles := processedFiles s2 + 1\<rparr>)"

text \<open>\<open>detectedFiles.find(f => f.type === 'complete_results')\<close>.\<close>

definition find_complete_results :: "detected_object list \<Rightarrow> detected_object option" where
  "find_complete_results detectedFiles =
     List.find (\<lambda>f. dtype (snd f) = CompleteResults) detectedFiles"

text \<open>The \<open>for\<close> loop; \<open>if (detectedFile === completeResultsFile) continue\<close> comes first.\<close>

fun processRemaining ::
  "env \<Rightarrow> progress_callback option \<Rightarrow> nat \<Rightarrow> detected_object option \<Rightarrow>
   detected_object list \<Rightarrow> merge_state \<Rightarrow> merge_state" where
  "processRemaining E onProgress totalFiles completeResultsFile [] s = s"
| "processRemaining E onProgress totalFiles completeResultsFile (detectedFile # rest) s =
     processRemaining E onProgress totalFiles completeResultsFile rest
       (if Some detectedFile = completeResultsFile then s
        else processFile E onProgress totalFiles (snd detectedFile) s)"

text \<open>The state when the loop is left.\<close>

definition accumulate ::
  "env \<Rightarrow> detected_object list \<Rightarrow> progress_callback option \<Rightarrow> merge_state" where
  "accumulate E detectedFiles onProgress =
     (let totalFiles = length detectedFiles;
          completeResultsFile = find_complete_results detectedFiles;
          s1 = (case completeResultsFile of
                  None \<Rightarrow> initial_state
                | Some crf \<Rightarrow>
                    processCompleteResults E onProgress totalFiles (snd crf) initial_state)
      in processRemaining E onProgress totalFiles completeResultsFile detectedFiles s1)"

text \<open>\<open>if (xs.length > 0) data.key = xs\<close> for a decoded sequence.\<close>

definition if_nonempty :: "json list \<Rightarrow> json list option" where
  "if_nonempty xs = (if xs \<noteq> [] then Some xs else None)"

text \<open>
  The record \<open>data\<close>: the object literal and the five tests that add the pipeline keys,
  in their order. The tests of the three slots a bundle may have filled can throw.
\<close>

definition build_data :: "env \<Rightarrow> merge_state \<Rightarrow> VideoInfo \<Rightarrow> thrown + StandardAnnotationData" where
  "build_data E s info =
     (let d0 = \<lparr>video_info = info,
                metadata =
                  \<lparr>created = isoNow E, version = ''1.1.1'',
                   pipelines = pipelinesFound s, source = ''videoannotator'',
                   processing_config = processingConfig s,
                   processing_time = processingTime s,
                   total_duration = totalDuration s\<rparr>,
                person_tracking = None, speech_recognition = None,
                speaker_diarization = None, scene_detection = None, face_analysis = None,
                audio_file = None\<rparr>
      in case length_gt0 E (personTracking s) of
           Inl e \<Rightarrow> Inl e
         | Inr person \<Rightarrow>
             (let d1 = (if person then d0\<lparr>person_tracking := Some (personTracking s)\<rparr> else d0);
                  d2 = d1\<lparr>speech_recognition := if_nonempty (speechRecognition s)\<rparr>;
                  d3 = d2\<lparr>speaker_diarization := if_nonempty (speakerDiarization s)\<rparr>
              in case length_gt0 E (sceneDetection s) of
                   Inl e \<Rightarrow> Inl e
                 | Inr scene \<Rightarrow>
                     (let d4 = (if scene then d3\<lparr>scene_detection := Some (sceneDetection s)\<rparr>
                                else d3)
                      in case length_gt0 E (faceAnalysis s) of
                           Inl e \<Rightarrow> Inl e
                         | Inr face \<Rightarrow>
                             (let d5 = (if face then d4\<lparr>face_analysis := Some (faceAnalysis s)\<rparr>
                                        else d4)
                              in Inr (d5\<lparr>audio_file := audioFile s\<rparr>)))))"

text \<open>The \<open>metadata\<close> returned beside the record.\<close>

definition report :: "env \<Rightarrow> merge_state \<Rightarrow> ParseMetadata" where
  "report E s =
     \<lparr>meta_filesProcessed = processedFiles s,
      meta_pipelinesFound = pipelinesFound s,
      meta_warnings = warnings s,
      meta_processingTime = endTime E - startTime E\<rparr>"

text \<open>
  Everything after the loop. The two progress calls, the probe and the tests of
  \<open>build_data\<close> stand outside any \<open>try\<close>: what they throw rejects the merge.
\<close>

definition finish ::
  "env \<Rightarrow> progress_callback option \<Rightarrow> nat \<Rightarrow> merge_state \<Rightarrow>
   event list \<times> (thrown + ParseResult)" where
  "finish E onProgress totalFiles s =
     (case videoFile s of
        None \<Rightarrow> (events s, Inl (Error ''No video file provided''))
      | Some v \<Rightarrow>
          (let thrown = call_progress onProgress ''Extracting video metadata''
                          (processedFiles s) (totalFiles + 1) s;
               s1 = emit (Progress ''Extracting video metadata'' (processedFiles s)
                            (totalFiles + 1) thrown) s
           in case thrown of
                Some e \<Rightarrow> (events s1, Inl e)
              | None \<Rightarrow>
                  (let s2 = emit (Call ExtractVideoInfo v) s1
                   in case extractVideoInfo E v of
                        Inl e \<Rightarrow> (events s2, Inl e)
                      | Inr info \<Rightarrow>
                          (case build_data E s2 info of
                             Inl e \<Rightarrow> (events s2, Inl e)
                           | Inr d \<Rightarrow>
                               (let thrown' = call_progress onProgress ''Merging complete''
                                                (totalFiles + 1) (totalFiles + 1) s2;
                                    s3 = emit (Progress ''Merging complete'' (totalFiles + 1)
                                                 (totalFiles + 1) thrown') s2
                                in case thrown' of
                                     Some e \<Rightarrow> (events s3, Inl e)
                                   | None \<Rightarrow>
                                       (events s3,
                                        Inr \<lparr>data = d, result_metadata = report E s2\<rparr>))))))"

text \<open>A run of the merge: its trace, and the error thrown or the result returned.\<close>

definition mergeAnnotationData ::
  "env \<Rightarrow> detected_object list \<Rightarrow> progress_callback option \<Rightarrow>
   event list \<times> (thrown + ParseResult)" where
  "mergeAnnotationData E detectedFiles onProgress =
     finish E onProgress (length detectedFiles) (accumulate E detectedFiles onProgress)"

section \<open>Notions used to state the properties\<close>

text \<open>The types whose files carry the output of a pipeline.\<close>

definition pipeline_bearing :: "DetectedFile \<Rightarrow> bool" where
  "pipeline_bearing d =
     (dtype d \<in> set [PersonTracking, SpeechRecognition, SpeakerDiarization, SceneDetection,
                      FaceAnalysis, CompleteResults])"

text \<open>The file name of the last entry of a list.\<close>

definition last_name :: "DetectedFile list \<Rightarrow> string option" where
  "last_name ds = (case rev ds of [] \<Rightarrow> None | d # _ \<Rightarrow> Some (name (file_of d)))"

text \<open>
  The name of a summary entry: the pipeline label of the classified file when it has a
  non-empty one, else the name of its type.
\<close>

definition summary_label :: "DetectedFile \<Rightarrow> string" where
  "summary_label d =
     (case pipeline d of
        Some (c # cs) \<Rightarrow> c # cs
      | _ \<Rightarrow>
          (case dtype d of
             Video \<Rightarrow> ''video''
           | PersonTracking \<Rightarrow> ''person_tracking''
           | SpeechRecognition \<Rightarrow> ''speech_recognition''
           | SpeakerDiarization \<Rightarrow> ''speaker_diarization''
           | SceneDetection \<Rightarrow> ''scene_detection''
           | FaceAnalysis \<Rightarrow> ''face_analysis''
           | CompleteResults \<Rightarrow> ''complete_results''
           | Audio \<Rightarrow> ''audio''
           | Unknown \<Rightarrow> ''unknown''))"

text \<open>The summary entry of a classified file.\<close>

definition summary_entry_of :: "DetectedFile \<Rightarrow> summary_entry" where
  "summary_entry_of d =
     \<lparr>entry_name = summary_label d, entry_file = name (file_of d),
      entry_confidence = confidence d\<rparr>"

text \<open>The objects the loop works on: all but the complete-results object found first.\<close>

definition loop_objects :: "detected_object list \<Rightarrow> detected_object list" where
  "loop_objects detectedFiles =
     filter (\<lambda>f. Some f \<noteq> find_complete_results detectedFiles) detectedFiles"

text \<open>The objects a run works on, the complete-results object first.\<close>

definition visited :: "detected_object list \<Rightarrow> detected_object list" where
  "visited detectedFiles =
     (case find_complete_results detectedFiles of
        None \<Rightarrow> detectedFiles
      | Some crf \<Rightarrow> crf # loop_objects detectedFiles)"

text \<open>The complete-results object found first stands at one place of the array only.\<close>

definition bundle_once :: "detected_object list \<Rightarrow> bool" where
  "bundle_once detectedFiles =
     (length (filter (\<lambda>f. Some f = find_complete_results detectedFiles) detectedFiles) \<le> 1)"

text \<open>The state in which the loop starts.\<close>

definition loop_start ::
  "env \<Rightarrow> progress_callback option \<Rightarrow> detected_object list \<Rightarrow> merge_state" where
  "loop_start E onProgress detectedFiles =
     (case find_complete_results detectedFiles of
        None \<Rightarrow> initial_state
      | Some crf \<Rightarrow>
          processCompleteResults E onProgress (length detectedFiles) (snd crf) initial_state)"

text \<open>The loop body applied to a list of files in turn.\<close>

definition run_files ::
  "env \<Rightarrow> progress_callback option \<Rightarrow> nat \<Rightarrow> DetectedFile list \<Rightarrow> merge_state \<Rightarrow> merge_state" where
  "run_files E onProgress t ds s = foldl (\<lambda>s d. processFile E onProgress t d s) s ds"

text \<open>The stage labels of the progress entries of a trace.\<close>

fun progress_labels :: "event list \<Rightarrow> string list" where
  "progress_labels [] = []"
| "progress_labels (Progress l p t r # es) = l # progress_labels es"
| "progress_labels (Call c f # es) = progress_labels es"

text \<open>The label of the progress call for an object.\<close>

definition object_label :: "detected_object \<Rightarrow> string" where
  "object_label f = processing_label (file_of (snd f))"


text \<open>A callback that is absent or never throws.\<close>

definition quiet :: "progress_callback option \<Rightarrow> bool" where
  "quiet onProgress =
     (case onProgress of
        None \<Rightarrow> True
      | Some callback \<Rightarrow> (\<forall>h stage k n. callback h stage k n = None))"

text \<open>The state an adopted bundle leaves, whether or not a comparison threw.\<close>

definition adopted :: "thrown \<times> merge_state + merge_state \<Rightarrow> merge_state" where
  "adopted x = (case x of Inl (e, s) \<Rightarrow> s | Inr s \<Rightarrow> s)"

text \<open>The key a slot of a bundle pipeline gets in the record: the slot, if its length is positive.\<close>

definition if_positive :: "env \<Rightarrow> json \<Rightarrow> json option" where
  "if_positive E v = (case length_gt0 E v of Inr True \<Rightarrow> Some v | _ \<Rightarrow> None)"

text \<open>An object that has a key.\<close>

definition has_field :: "json \<Rightarrow> string \<Rightarrow> bool" where
  "has_field v k = (case v of JObj kv \<Rightarrow> k \<in> fst ` set kv | _ \<Rightarrow> False)"

text \<open>The complete-results sniffer in the words of the specification: the whole content
  parses, the four fields are present, and \<open>total_duration\<close> is not undefined.\<close>

definition spec_complete_results_match :: "env \<Rightarrow> File \<Rightarrow> bool" where
  "spec_complete_results_match E f =
     (case JSON_parse E (content f) of
        Inl e \<Rightarrow> False
      | Inr parsed \<Rightarrow>
          has_field parsed ''video_path'' \<and> has_field parsed ''pipeline_results'' \<and>
          has_field parsed ''config'' \<and> has_field parsed ''start_time'' \<and>
          get_prop parsed ''total_duration'' \<noteq> None)"

text \<open>A field that holds a truthy value.\<close>

definition truthy_field :: "json \<Rightarrow> string \<Rightarrow> bool" where
  "truthy_field v k = (case get_prop v k of None \<Rightarrow> False | Some x \<Rightarrow> truthy x)"

text \<open>What the code asks of a parsed bundle.\<close>

definition complete_results_fields :: "json \<Rightarrow> bool" where
  "complete_results_fields parsed =
     (truthy_field parsed ''video_path'' \<and> truthy_field parsed ''pipeline_results'' \<and>
      truthy_field parsed ''config'' \<and> truthy_field parsed ''start_time'' \<and>
      get_prop parsed ''total_duration'' \<noteq> None)"

text \<open>The files \<open>detectFileType\<close> hands to \<open>detectJSONType\<close>: no earlier branch takes them,
  and the extension or the MIME type says JSON.\<close>

definition delegated_to_json :: "File \<Rightarrow> bool" where
  "delegated_to_json f =
     (let extension = pop_or_empty (split CHR ''.'' (toLowerCase (name f)));
          mimeType = toLowerCase (type f)
      in \<not> (extension \<in> set [''mp4'', ''webm'', ''avi'', ''mov''] \<or> startsWith mimeType ''video/'') \<and>
         \<not> (extension \<in> set [''wav'', ''mp3'', ''aac'', ''ogg''] \<or> startsWith mimeType ''audio/'') \<and>
         \<not> (extension = ''vtt'' \<or> str_includes (name f) ''speech_recognition'') \<and>
         \<not> (extension = ''rttm'' \<or> str_includes (name f) ''speaker_diarization'') \<and>
         (extension = ''json'' \<or> mimeType = ''application/json''))"

text \<open>A sequence whose first element is an object with a key.\<close>

definition first_has_field :: "json option \<Rightarrow> string \<Rightarrow> bool" where
  "first_has_field ov k = (case ov of Some (JArr (x # _)) \<Rightarrow> has_field x k | _ \<Rightarrow> False)"

text \<open>The face-analysis sniffer in the words of the specification: a sequence whose first
  element has \<open>face_id\<close> and \<open>attributes\<close>, or an object whose \<open>annotations[0]\<close> or
  \<open>results[0]\<close> has \<open>face_id\<close>.\<close>

definition spec_face_shape :: "json \<Rightarrow> bool" where
  "spec_face_shape parsed =
     (case parsed of
        JArr xs \<Rightarrow> (case xs of [] \<Rightarrow> False
                    | x # _ \<Rightarrow> has_field x ''face_id'' \<and> has_field x ''attributes'')
      | JObj kv \<Rightarrow> first_has_field (map_of kv ''annotations'') ''face_id'' \<or>
                   first_has_field (map_of kv ''results'') ''face_id''
      | _ \<Rightarrow> False)"

definition spec_face_match :: "env \<Rightarrow> File \<Rightarrow> bool" where
  "spec_face_match E f =
     (case JSON_parse E (slice_text f 2000) of
        Inl e \<Rightarrow> False
      | Inr parsed \<Rightarrow> spec_face_shape parsed)"

text \<open>\<open>v && v[0]\<close> as a value: the element at 0 of a truthy \<open>v\<close>, if there is one.\<close>

definition first_of :: "json option \<Rightarrow> json option" where
  "first_of ov = (case ov of None \<Rightarrow> None | Some v \<Rightarrow> if truthy v then elem0 v else None)"

text \<open>A truthy number, string or boolean: the operand on which \<open>in\<close> throws when it is
  reached.\<close>

definition truthy_primitive :: "json option \<Rightarrow> bool" where
  "truthy_primitive ox =
     (case ox of
        Some (JBool b) \<Rightarrow> b
      | Some (JNum n) \<Rightarrow> n \<noteq> 0
      | Some (JStr s) \<Rightarrow> s \<noteq> []
      | _ \<Rightarrow> False)"

text \<open>A value that is there and is an object with a key.\<close>

definition opt_has_field :: "json option \<Rightarrow> string \<Rightarrow> bool" where
  "opt_has_field ox k = (case ox of None \<Rightarrow> False | Some x \<Rightarrow> has_field x k)"

text \<open>What the code asks of a parsed prefix to call it face analysis.\<close>

definition face_match :: "json \<Rightarrow> bool" where
  "face_match parsed =
     (case parsed of
        JArr xs \<Rightarrow> (case xs of [] \<Rightarrow> True
                    | x # _ \<Rightarrow> has_field x ''face_id'' \<and> has_field x ''attributes'')
      | JNull \<Rightarrow> False
      | _ \<Rightarrow> opt_has_field (first_of (get_prop parsed ''annotations'')) ''face_id'' \<or>
             (\<not> truthy_primitive (first_of (get_prop parsed ''annotations'')) \<and>
              opt_has_field (first_of (get_prop parsed ''results'')) ''face_id''))"

text \<open>A length comparison that does not throw.\<close>

definition reads :: "env \<Rightarrow> json \<Rightarrow> bool" where
  "reads E v = (case length_gt0 E v of Inl e \<Rightarrow> False | Inr b \<Rightarrow> True)"

text \<open>
  The block of the complete-results object runs to its end: the progress call returns,
  the extractor returns, and no length comparison throws.
\<close>

definition bundle_completes ::
  "env \<Rightarrow> progress_callback option \<Rightarrow> detected_object list \<Rightarrow> bool" where
  "bundle_completes E onProgress detectedFiles =
     (case find_complete_results detectedFiles of
        None \<Rightarrow> False
      | Some crf \<Rightarrow>
          call_progress onProgress (object_label crf) 0 (length detectedFiles) initial_state = None \<and>
          (case parseCompleteResults E (file_of (snd crf)) of
             Inl e \<Rightarrow> False
           | Inr r \<Rightarrow>
               reads E (cr_personTracking r) \<and> reads E (cr_faceAnalysis r) \<and>
               reads E (cr_sceneDetection r)))"

text \<open>What the assignments of the bundle's block threw, if anything.\<close>

definition adopt_error :: "thrown \<times> merge_state + merge_state \<Rightarrow> thrown option" where
  "adopt_error x = (case x of Inl (e, s) \<Rightarrow> Some e | Inr s \<Rightarrow> None)"

text \<open>A call that returned.\<close>

definition decoded_ok :: "thrown + 'a \<Rightarrow> bool" where
  "decoded_ok r = (case r of Inl e \<Rightarrow> False | Inr x \<Rightarrow> True)"

text \<open>
  An invariant of the loop: \<open>pipelinesFound\<close> has no duplicates, and a guarded pipeline
  that is listed has a slot whose length is not 0.
\<close>

definition found_ok :: "merge_state \<Rightarrow> bool" where
  "found_ok s =
     (distinct (pipelinesFound s) \<and>
      (''person_tracking'' \<in> set (pipelinesFound s) \<longrightarrow> \<not> length_is_zero (personTracking s)) \<and>
      (''face_analysis'' \<in> set (pipelinesFound s) \<longrightarrow> \<not> length_is_zero (faceAnalysis s)) \<and>
      (''scene_detection'' \<in> set (pipelinesFound s) \<longrightarrow> \<not> length_is_zero (sceneDetection s)))"

text \<open>The decoder of a guarded pipeline does not return an empty sequence for the file.\<close>

definition nonempty_decodes :: "env \<Rightarrow> DetectedFile \<Rightarrow> bool" where
  "nonempty_decodes E d =
     ((dtype d = PersonTracking \<longrightarrow> parseCOCOPersonData E (file_of d) \<noteq> Inr []) \<and>
      (dtype d = FaceAnalysis \<longrightarrow> parseFaceAnalysis E (file_of d) \<noteq> Inr []) \<and>
      (dtype d = SceneDetection \<longrightarrow> parseSceneDetection E (file_of d) \<noteq> Inr []))"

text \<open>A speech_recognition file that decodes.\<close>

definition speech_decoded :: "env \<Rightarrow> DetectedFile \<Rightarrow> bool" where
  "speech_decoded E d = (dtype d = SpeechRecognition \<and> decoded_ok (parseWebVTT E (file_of d)))"

text \<open>A speaker_diarization file that decodes.\<close>

definition diarization_decoded :: "env \<Rightarrow> DetectedFile \<Rightarrow> bool" where
  "diarization_decoded E d = (dtype d = SpeakerDiarization \<and> decoded_ok (parseRTTM E (file_of d)))"

text \<open>How many more times a pipeline name may be pushed without a duplicate.\<close>

definition once_more :: "string \<Rightarrow> merge_state \<Rightarrow> nat" where
  "once_more p s = (if p \<in> set (pipelinesFound s) then 0 else 1)"

text \<open>
  The names of those values of a list whose length is positive, up to the first length
  comparison that throws.
\<close>

fun positives :: "env \<Rightarrow> (string \<times> json) list \<Rightarrow> string list" where
  "positives E [] = []"
| "positives E ((p, v) # rest) =
     (case length_gt0 E v of
        Inl e \<Rightarrow> []
      | Inr b \<Rightarrow> (if b then [p] else []) @ positives E rest)"

text \<open>The pipelines an extracted bundle is listed with.\<close>

definition bundle_entries :: "env \<Rightarrow> CompleteResultsData \<Rightarrow> string list" where
  "bundle_entries E r =
     positives E [(''person_tracking'', cr_personTracking r),
                  (''face_analysis'', cr_faceAnalysis r),
                  (''scene_detection'', cr_sceneDetection r)]"

text \<open>
  The pipelines the block of the complete-results object lists: those of the bundle, when
  the progress call and the extractor return.
\<close>

definition bundle_pipelines ::
  "env \<Rightarrow> progress_callback option \<Rightarrow> detected_object list \<Rightarrow> string list" where
  "bundle_pipelines E onProgress detectedFiles =
     (case find_complete_results detectedFiles of
        None \<Rightarrow> []
      | Some crf \<Rightarrow>
          if call_progress onProgress (object_label crf) 0 (length detectedFiles) initial_state = None
          then (case parseCompleteResults E (file_of (snd crf)) of
                  Inl e \<Rightarrow> []
                | Inr r \<Rightarrow> bundle_entries E r)
          else [])"

text \<open>The value a call threw, if it threw.\<close>

definition failure_of :: "thrown + 'a \<Rightarrow> thrown option" where
  "failure_of r = (case r of Inl e \<Rightarrow> Some e | Inr x \<Rightarrow> None)"

text \<open>The value a callee throws on a file in an environment, if it throws.\<close>

definition call_failure :: "env \<Rightarrow> callee \<Rightarrow> File \<Rightarrow> thrown option" where
  "call_failure E c f =
     (case c of
        ParseCompleteResults \<Rightarrow> failure_of (parseCompleteResults E f)
      | ParseWebVTT \<Rightarrow> failure_of (parseWebVTT E f)
      | ParseRTTM \<Rightarrow> failure_of (parseRTTM E f)
      | ParseCOCOPersonData \<Rightarrow> failure_of (parseCOCOPersonData E f)
      | ParseSceneDetection \<Rightarrow> failure_of (parseSceneDetection E f)
      | ParseFaceAnalysis \<Rightarrow> failure_of (parseFaceAnalysis E f)
      | ExtractVideoInfo \<Rightarrow> failure_of (extractVideoInfo E f))"

text \<open>The pipeline a decoder stands for.\<close>

fun callee_pipeline :: "callee \<Rightarrow> string option" where
  "callee_pipeline ParseWebVTT = Some ''speech_recognition''"
| "callee_pipeline ParseRTTM = Some ''speaker_diarization''"
| "callee_pipeline ParseCOCOPersonData = Some ''person_tracking''"
| "callee_pipeline ParseSceneDetection = Some ''scene_detection''"
| "callee_pipeline ParseFaceAnalysis = Some ''face_analysis''"
| "callee_pipeline ParseCompleteResults = None"
| "callee_pipeline ExtractVideoInfo = None"

text \<open>The pipelines of the decoder calls of a trace that returned, in the order of the calls.\<close>

fun returned_pipelines :: "env \<Rightarrow> event list \<Rightarrow> string list" where
  "returned_pipelines E [] = []"
| "returned_pipelines E (Progress l k n r # es) = returned_pipelines E es"
| "returned_pipelines E (Call c f # es) =
     (case callee_pipeline c of
        None \<Rightarrow> []
      | Some p \<Rightarrow> if call_failure E c f = None then [p] else []) @ returned_pipelines E es"

text \<open>
  The complete-results object found first is extracted: its progress call and the
  extractor return.
\<close>

definition bundle_extracted ::
  "env \<Rightarrow> progress_callback option \<Rightarrow> detected_object list \<Rightarrow> bool" where
  "bundle_extracted E onProgress detectedFiles =
     (case find_complete_results detectedFiles of
        None \<Rightarrow> False
      | Some crf \<Rightarrow>
          call_progress onProgress (object_label crf) 0 (length detectedFiles) initial_state = None \<and>
          decoded_ok (parseCompleteResults E (file_of (snd crf))))"

text \<open>A state without its counter and its trace.\<close>

definition core :: "merge_state \<Rightarrow> merge_state" where
  "core s = s\<lparr>processedFiles := 0, events := []\<rparr>"

text \<open>Every type but person_tracking.\<close>

definition not_person_tracking :: "DetectedFile \<Rightarrow> bool" where
  "not_person_tracking d = (dtype d \<noteq> PersonTracking)"




text \<open>The three slots a bundle may fill hold truthy values, so that none is \<open>null\<close>.\<close>

definition slots_truthy :: "merge_state \<Rightarrow> bool" where
  "slots_truthy s =
     (truthy (personTracking s) \<and> truthy (faceAnalysis s) \<and> truthy (sceneDetection s))"

section \<open>A concrete environment and concrete files\<close>

text \<open>
  A parser that knows a handful of JSON texts and rejects every other input, decoders
  built on it, a video probe that fails for one file name, and conversions that are
  given where the runs below need them: the empty string stands for 0 and no other
  string for a number, an object converts to \<open>NaN\<close>, and \<open>+\<close> adds two numbers and throws
  on any other pair.
\<close>

definition demo_bundle_text :: string where
  \<open>demo_bundle_text =
     ''{"video_path":"clip.mp4","pipeline_results":{"person":{"results":[{"id":1}],"processing_time":2}},"config":{},"start_time":5,"total_duration":10}''\<close>

definition demo_bundle :: json where
  "demo_bundle =
     JObj [(''video_path'', JStr ''clip.mp4''),
           (''pipeline_results'',
              JObj [(''person'', JObj [(''results'', JArr [JObj [(''id'', JNum 1)]]),
                                       (''processing_time'', JNum 2)])]),
           (''config'', JObj []),
           (''start_time'', JNum 5),
           (''total_duration'', JNum 10)]"

definition demo_bare_bundle_text :: string where
  \<open>demo_bare_bundle_text =
     ''{"video_path":"clip.mp4","pipeline_results":{},"config":{},"start_time":5,"total_duration":10}''\<close>

definition demo_bare_bundle :: json where
  "demo_bare_bundle =
     JObj [(''video_path'', JStr ''clip.mp4''), (''pipeline_results'', JObj []),
           (''config'', JObj []), (''start_time'', JNum 5), (''total_duration'', JNum 10)]"

definition demo_zero_start_text :: string where
  \<open>demo_zero_start_text =
     ''{"video_path":"clip.mp4","pipeline_results":{},"config":{},"start_time":0,"total_duration":10}''\<close>

definition demo_zero_start :: json where
  "demo_zero_start =
     JObj [(''video_path'', JStr ''clip.mp4''), (''pipeline_results'', JObj []),
           (''config'', JObj []), (''start_time'', JNum 0), (''total_duration'', JNum 10)]"

definition demo_person_text :: string where
  \<open>demo_person_text = ''[{"keypoints":[],"bbox":[]}]''\<close>

definition demo_faces_text :: string where
  \<open>demo_faces_text = ''[{"face_id":1,"attributes":{}}]''\<close>

definition demo_table :: "(string \<times> json) list" where
  "demo_table =
     [(''[]'', JArr []),
      (demo_person_text, JArr [JObj [(''keypoints'', JArr []), (''bbox'', JArr [])]]),
      (demo_faces_text, JArr [JObj [(''face_id'', JNum 1), (''attributes'', JObj [])]]),
      (demo_bundle_text, demo_bundle),
      (demo_bare_bundle_text, demo_bare_bundle),
      (demo_zero_start_text, demo_zero_start)]"

definition demo_parse :: "string \<Rightarrow> thrown + json" where
  "demo_parse s =
     (case map_of demo_table s of
        None \<Rightarrow> Inl (Error ''Unexpected token'')
      | Some v \<Rightarrow> Inr v)"

definition demo_decode :: "File \<Rightarrow> thrown + json list" where
  "demo_decode f =
     (case demo_parse (content f) of
        Inl e \<Rightarrow> Inl e
      | Inr (JArr xs) \<Rightarrow> Inr xs
      | Inr v \<Rightarrow> Inr [])"

definition demo_webvtt :: "File \<Rightarrow> thrown + json list" where
  "demo_webvtt f =
     (if isValidWebVTT f then Inr [JStr ''cue''] else Inl (Error ''Invalid WebVTT''))"

definition demo_plus :: "json \<Rightarrow> json \<Rightarrow> thrown + json" where
  "demo_plus a b =
     (case a of
        JNum x \<Rightarrow> (case b of JNum y \<Rightarrow> Inr (JNum (x + y)) | _ \<Rightarrow> Inl NonError)
      | _ \<Rightarrow> Inl NonError)"

definition demo_env :: env where
  "demo_env =
     \<lparr>JSON_parse = demo_parse,
      parseWebVTT = demo_webvtt,
      parseRTTM = (\<lambda>f. Inl NonError),
      parseCOCOPersonData = demo_decode,
      parseSceneDetection = demo_decode,
      loadedmetadata = (\<lambda>f. if name f = ''broken.mp4'' then None else Some (120, 640, 480)),
      typeErrorMessage = (\<lambda>k. ''Cannot read properties of undefined (reading '' @ k @ '')''),
      stringToNumber = (\<lambda>s. if s = [] then Some 0 else None),
      objectToNumber = (\<lambda>v. Inr None),
      js_plus = demo_plus,
      startTime = 1000,
      endTime = 1250,
      isoNow = ''2024-01-01T00:00:00.000Z''\<rparr>"

definition clip_mp4 :: File where
  "clip_mp4 = \<lparr>name = ''clip.mp4'', type = ''video/mp4'', content = ''mp4''\<rparr>"

definition broken_mp4 :: File where
  "broken_mp4 = \<lparr>name = ''broken.mp4'', type = ''video/mp4'', content = ''mp4''\<rparr>"

definition clip_wav :: File where
  "clip_wav = \<lparr>name = ''clip.wav'', type = ''audio/wav'', content = ''wav''\<rparr>"

definition notes_txt :: File where
  "notes_txt = \<lparr>name = ''notes.txt'', type = ''text/plain'', content = ''notes''\<rparr>"

definition clip_vtt :: File where
  "clip_vtt = \<lparr>name = ''clip.vtt'', type = ''text/vtt'', content = ''WEBVTT''\<rparr>"

definition extra_vtt :: File where
  "extra_vtt = \<lparr>name = ''extra.vtt'', type = ''text/vtt'', content = ''WEBVTT''\<rparr>"

definition corrupt_vtt :: File where
  "corrupt_vtt = \<lparr>name = ''corrupt.vtt'', type = ''text/vtt'', content = ''garbage''\<rparr>"

definition person_json :: File where
  "person_json = \<lparr>name = ''person.json'', type = ''application/json'', content = demo_person_text\<rparr>"

definition faces_json :: File where
  "faces_json = \<lparr>name = ''faces.json'', type = ''application/json'', content = demo_faces_text\<rparr>"

definition empty_json :: File where
  "empty_json = \<lparr>name = ''data.json'', type = ''application/json'', content = ''[]''\<rparr>"

definition results_json :: File where
  "results_json =
     \<lparr>name = ''complete_results.json'', type = ''application/json'', content = demo_bundle_text\<rparr>"

definition bare_results_json :: File where
  "bare_results_json =
     \<lparr>name = ''complete_results.json'', type = ''application/json'',
      content = demo_bare_bundle_text\<rparr>"

definition corrupt_results_json :: File where
  "corrupt_results_json =
     \<lparr>name = ''complete_results.json'', type = ''application/json'', content = ''garbage''\<rparr>"

definition zero_start_json :: File where
  "zero_start_json =
     \<lparr>name = ''run.json'', type = ''application/json'', content = demo_zero_start_text\<rparr>"

definition demo_video :: DetectedFile where
  "demo_video = \<lparr>file_of = clip_mp4, dtype = Video, pipeline = None, confidence = 0.95\<rparr>"

definition demo_broken_video :: DetectedFile where
  "demo_broken_video = \<lparr>file_of = broken_mp4, dtype = Video, pipeline = None, confidence = 0.95\<rparr>"

definition demo_audio :: DetectedFile where
  "demo_audio = \<lparr>file_of = clip_wav, dtype = Audio, pipeline = None, confidence = 0.95\<rparr>"

definition demo_unknown :: DetectedFile where
  "demo_unknown = \<lparr>file_of = notes_txt, dtype = Unknown, pipeline = None, confidence = 0.1\<rparr>"

definition demo_vtt :: DetectedFile where
  "demo_vtt = detected clip_vtt SpeechRecognition 0.9"

definition demo_extra_vtt :: DetectedFile where
  "demo_extra_vtt = detected extra_vtt SpeechRecognition 0.9"

definition demo_corrupt_vtt :: DetectedFile where
  "demo_corrupt_vtt = detected corrupt_vtt SpeechRecognition 0.3"

definition demo_person :: DetectedFile where
  "demo_person = detected person_json PersonTracking 0.8"

definition demo_complete :: DetectedFile where
  "demo_complete = detected results_json CompleteResults 0.95"

definition demo_bare_complete :: DetectedFile where
  "demo_bare_complete = detected bare_results_json CompleteResults 0.95"

definition demo_corrupt_complete :: DetectedFile where
  "demo_corrupt_complete = detected corrupt_results_json CompleteResults 0.7"

text \<open>A classified file without a pipeline label, as a caller may build one.\<close>

definition demo_unlabelled :: DetectedFile where
  "demo_unlabelled =
     \<lparr>file_of = empty_json, dtype = SceneDetection, pipeline = None, confidence = 0.5\<rparr>"

text \<open>
  Five objects, each paired with the number that stands for its identity: a bundle, a
  person-tracking file, a video, a transcript, and a transcript that does not decode.
\<close>

definition demo_files :: "detected_object list" where
  "demo_files =
     [(0, demo_complete), (1, demo_person), (2, demo_video), (3, demo_vtt),
      (4, demo_corrupt_vtt)]"

text \<open>An array that holds the bundle object at two places.\<close>

definition demo_twice :: "detected_object list" where
  "demo_twice = [(0, demo_complete), (0, demo_complete), (2, demo_video)]"

text \<open>A bundle that does not parse, and a video.\<close>

definition demo_failed :: "detected_object list" where
  "demo_failed = [(0, demo_corrupt_complete), (1, demo_video)]"

text \<open>A transcript and a bundle, neither of them a video.\<close>

definition demo_no_video :: "detected_object list" where
  "demo_no_video = [(0, demo_vtt), (1, demo_complete)]"

text \<open>A progress callback that throws when it is told of \<open>clip.vtt\<close>.\<close>

definition demo_callback :: "progress_callback option" where
  "demo_callback =
     Some (\<lambda>history stage k n.
             if stage = ''Processing clip.vtt'' then Some (Error ''callback failed'') else None)"

text \<open>Classified files for the summary view.\<close>

definition demo_summary_files :: "DetectedFile list" where
  "demo_summary_files =
     [demo_video, demo_person, demo_unlabelled, demo_audio, demo_complete, demo_unknown,
      demo_broken_video]"

text \<open>What the extractor returns for the bundle.\<close>

definition demo_extract :: CompleteResultsData where
  "demo_extract =
     \<lparr>cr_personTracking = JArr [JObj [(''id'', JNum 1)]], cr_faceAnalysis = JArr [],
      cr_sceneDetection = JArr [], cr_config = Some (JObj []), cr_processingTime = JNum 2,
      cr_totalDuration = Some (JNum 10)\<rparr>"

text \<open>What the probe returns for the video.\<close>

definition demo_info :: VideoInfo where
  "demo_info =
     \<lparr>filename = ''clip.mp4'', duration = 120, width = 640, height = 480, frame_rate = 30\<rparr>"

text \<open>What the merge of the five objects returns.\<close>

definition demo_result :: ParseResult where
  "demo_result =
     \<lparr>data =
        \<lparr>video_info = demo_info,
         metadata =
           \<lparr>created = ''2024-01-01T00:00:00.000Z'', version = ''1.1.1'',
            pipelines = [''person_tracking'', ''speech_recognition''],
            source = ''videoannotator'', processing_config = Some (JObj []),
            processing_time = Some (JNum 2), total_duration = Some (JNum 10)\<rparr>,
         person_tracking = Some (JArr [JObj [(''id'', JNum 1)]]),
         speech_recognition = Some [JStr ''cue''],
         speaker_diarization = None, scene_detection = None, face_analysis = None,
         audio_file = None\<rparr>,
      result_metadata =
        \<lparr>meta_filesProcessed = 5,
         meta_pipelinesFound = [''person_tracking'', ''speech_recognition''],
         meta_warnings = [''Failed to parse corrupt.vtt: Invalid WebVTT''],
         meta_processingTime = 250\<rparr>\<rparr>"

text \<open>What the merge of a video and a transcript that does not decode returns.\<close>

definition demo_partial_result :: ParseResult where
  "demo_partial_result =
     \<lparr>data =
        \<lparr>video_info = demo_info,
         metadata =
           \<lparr>created = ''2024-01-01T00:00:00.000Z'', version = ''1.1.1'',
            pipelines = [], source = ''videoannotator'', processing_config = None,
            processing_time = None, total_duration = None\<rparr>,
         person_tracking = None, speech_recognition = None,
         speaker_diarization = None, scene_detection = None, face_analysis = None,
         audio_file = None\<rparr>,
      result_metadata =
        \<lparr>meta_filesProcessed = 2, meta_pipelinesFound = [],
         meta_warnings = [''Failed to parse corrupt.vtt: Invalid WebVTT''],
         meta_processingTime = 250\<rparr>\<rparr>"

text \<open>What the merge of the bundle that does not parse and the video returns.\<close>

definition demo_failed_result :: ParseResult where
  "demo_failed_result =
     \<lparr>data =
        \<lparr>video_info = demo_info,
         metadata =
           \<lparr>created = ''2024-01-01T00:00:00.000Z'', version = ''1.1.1'',
            pipelines = [], source = ''videoannotator'', processing_config = None,
            processing_time = None, total_duration = None\<rparr>,
         person_tracking = None, speech_recognition = None,
         speaker_diarization = None, scene_detection = None, face_analysis = None,
         audio_file = None\<rparr>,
      result_metadata =
        \<lparr>meta_filesProcessed = 1, meta_pipelinesFound = [],
         meta_warnings =
           [''Failed to parse complete results complete_results.json: Unexpected token''],
         meta_processingTime = 250\<rparr>\<rparr>"

text \<open>The report of a run, when it returns one.\<close>

definition merge_report ::
  "env \<Rightarrow> detected_object list \<Rightarrow> progress_callback option \<Rightarrow> ParseMetadata option" where
  "merge_report E detectedFiles onProgress =
     (case snd (mergeAnnotationData E detectedFiles onProgress) of
        Inl e \<Rightarrow> None
      | Inr r \<Rightarrow> Some (result_metadata r))"

section \<open>Properties\<close>

subsection \<open>The concrete runs, evaluated\<close>

lemmas demo_defs = demo_env_def demo_video_def demo_broken_video_def demo_vtt_def demo_extra_vtt_def
  demo_corrupt_vtt_def demo_person_def demo_complete_def demo_bare_complete_def
  demo_corrupt_complete_def demo_audio_def demo_unknown_def demo_unlabelled_def
  clip_wav_def notes_txt_def clip_mp4_def broken_mp4_def clip_vtt_def extra_vtt_def
  corrupt_vtt_def person_json_def faces_json_def empty_json_def results_json_def
  bare_results_json_def corrupt_results_json_def zero_start_json_def
  demo_webvtt_def demo_decode_def demo_parse_def demo_table_def demo_bundle_def
  demo_bundle_text_def demo_bare_bundle_def demo_bare_bundle_text_def demo_zero_start_def
  demo_zero_start_text_def demo_person_text_def demo_faces_text_def detected_def
  demo_files_def demo_twice_def demo_failed_def demo_no_video_def demo_callback_def
  demo_summary_files_def demo_extract_def demo_info_def demo_result_def
  demo_partial_result_def demo_failed_result_def demo_plus_def

lemmas run_defs = mergeAnnotationData_def accumulate_def find_complete_results_def finish_def
  build_data_def report_def processCompleteResults_def adoptCompleteResults_def processFile_def
  switch_type_def call_progress_def Let_def emit_def
  push_warning_def push_pipeline_def initial_state_def extractVideoInfo_def if_nonempty_def
  processing_label_def parse_warning_def unknown_warning_def complete_results_warning_def
  error_text_def isValidWebVTT_def startsWith_def trim_def white_space_def slice_text_def
  parseCompleteResults_def section_results_def time_or_zero_def
  parseFaceAnalysis_def length_gt0_def length_is_zero_def to_number_def

lemmas sniff_defs = isValidCompleteResults_def complete_results_shape_def isValidFaceAnalysis_def
  face_shape_def isValidCOCOPersonData_def coco_shape_def isValidSceneDetection_def
  scene_shape_def guarded_def catch_false_def js_or_def js_and_def slice_text_def
  detectJSONType_def detectFileType_def toLowerCase_def toLowerChar_def pop_or_empty_def
  startsWith_def Let_def

lemma demo_run: "snd (mergeAnnotationData demo_env demo_files None) = Inr demo_result"
  by (simp add: run_defs demo_defs)


lemma demo_failed_run:
  "snd (mergeAnnotationData demo_env demo_failed None) = Inr demo_failed_result"
  by (simp add: run_defs demo_defs)

lemma demo_extraction: "parseCompleteResults demo_env (file_of demo_complete) = Inr demo_extract"
  by (simp add: run_defs demo_defs)

lemma demo_found: "find_complete_results demo_files = Some (0, demo_complete)"
  by (simp add: find_complete_results_def demo_files_def demo_complete_def detected_def)

lemma demo_once: "bundle_once demo_files"
  by (simp add: bundle_once_def find_complete_results_def demo_defs)


subsection \<open>Batch classification and the summary view\<close>

lemma mset_sort_insert: "mset (sort_insert cmp x ys) = add_mset x (mset ys)"
  by (induction ys) auto

lemma mset_array_sort: "mset (array_sort cmp xs) = mset xs"
  unfolding array_sort_def by (induction xs) (auto simp: mset_sort_insert)

lemma set_sort_insert: "set (sort_insert cmp x ys) = insert x (set ys)"
  by (induction ys) auto

lemma sorted_sort_insert:
  "sorted_wrt (\<lambda>a b. confidence b \<le> confidence a) ys \<Longrightarrow>
   sorted_wrt (\<lambda>a b. confidence b \<le> confidence a)
     (sort_insert (\<lambda>a b. confidence b - confidence a) x ys)"
proof (induction ys)
  case Nil
  then show ?case by simp
next
  case (Cons y ys)
  show ?case
  proof (cases "confidence y - confidence x \<le> 0")
    case True
    with Cons.prems show ?thesis by auto
  next
    case False
    with Cons show ?thesis by (auto simp: set_sort_insert)
  qed
qed

lemma sorted_array_sort:
  "sorted_wrt (\<lambda>a b. confidence b \<le> confidence a)
     (array_sort (\<lambda>a b. confidence b - confidence a) xs)"
  unfolding array_sort_def by (induction xs) (auto intro: sorted_sort_insert)

lemma filter_sort_insert:
  "filter (\<lambda>d. confidence d = c) (sort_insert (\<lambda>a b. confidence b - confidence a) x ys) =
   filter (\<lambda>d. confidence d = c) (x # ys)"
  by (induction ys) auto

lemma filter_array_sort:
  "filter (\<lambda>d. confidence d = c) (array_sort (\<lambda>a b. confidence b - confidence a) xs) =
   filter (\<lambda>d. confidence d = c) xs"
  unfolding array_sort_def by (induction xs) (auto simp: filter_sort_insert)

text \<open>
  Claim C8. The output of \<open>batchDetectFileTypes\<close> is a permutation of the per-file results
  of \<open>detectFileType\<close>, its confidences never increase from one entry to the next, and
  the entries of any one confidence stand in the order of the input.
\<close>

theorem batchDetectFileTypes_sorted_stable_permutation:
  "mset (batchDetectFileTypes E files) = mset (map (detectFileType E) files) \<and>
   sorted_wrt (\<lambda>a b. confidence b \<le> confidence a) (batchDetectFileTypes E files) \<and>
   (\<forall>c. filter (\<lambda>d. confidence d = c) (batchDetectFileTypes E files) =
        filter (\<lambda>d. confidence d = c) (map (detectFileType E) files))"
  unfolding batchDetectFileTypes_def Let_def
  using mset_array_sort sorted_array_sort filter_array_sort by blast

lemma getFilesSummary_snoc:
  "getFilesSummary (ds @ [d]) = summary_step (getFilesSummary ds) d"
  by (simp add: getFilesSummary_def)

lemma summary_video: "sum_video (getFilesSummary ds) = last_name (filter (\<lambda>d. dtype d = Video) ds)"
proof (induction ds rule: rev_induct)
  case Nil
  show ?case by (simp add: getFilesSummary_def last_name_def)
next
  case (snoc d ds)
  then show ?case
    by (cases "dtype d") (simp_all add: getFilesSummary_snoc summary_step_def last_name_def)
qed

lemma summary_audio: "sum_audio (getFilesSummary ds) = last_name (filter (\<lambda>d. dtype d = Audio) ds)"
proof (induction ds rule: rev_induct)
  case Nil
  show ?case by (simp add: getFilesSummary_def last_name_def)
next
  case (snoc d ds)
  then show ?case
    by (cases "dtype d") (simp_all add: getFilesSummary_snoc summary_step_def last_name_def)
qed

lemma pipeline_or_type_label: "pipeline_or_type d = summary_label d"
  by (cases "dtype d")
     (simp_all add: pipeline_or_type_def summary_label_def split: option.splits list.splits)

lemma summary_pipelines:
  "sum_pipelines (getFilesSummary ds) = map summary_entry_of (filter pipeline_bearing ds)"
proof (induction ds rule: rev_induct)
  case Nil
  show ?case by (simp add: getFilesSummary_def)
next
  case (snoc d ds)
  then show ?case
    by (cases "dtype d")
      (simp_all add: getFilesSummary_snoc summary_step_def pipeline_bearing_def
         summary_entry_of_def pipeline_or_type_label)
qed

lemma summary_unknown:
  "sum_unknown (getFilesSummary ds) = map (\<lambda>d. name (file_of d)) (filter (\<lambda>d. dtype d = Unknown) ds)"
proof (induction ds rule: rev_induct)
  case Nil
  show ?case by (simp add: getFilesSummary_def)
next
  case (snoc d ds)
  then show ?case
    by (cases "dtype d") (simp_all add: getFilesSummary_snoc summary_step_def)
qed

text \<open>
  Claim C10. The summary names the last video-typed and the last audio-typed entry (none
  when there is none); lists for every pipeline-bearing entry, complete_results
  included, in input order, its name (the pipeline label of the entry, or the name of
  its type when the label is absent or empty), its file name and its confidence; and
  lists the file names of the unknown-typed entries in input order.
\<close>

theorem getFilesSummary_groups:
  "sum_video (getFilesSummary ds) = last_name (filter (\<lambda>d. dtype d = Video) ds) \<and>
   sum_audio (getFilesSummary ds) = last_name (filter (\<lambda>d. dtype d = Audio) ds) \<and>
   sum_pipelines (getFilesSummary ds) =
     map (\<lambda>d. \<lparr>entry_name = summary_label d, entry_file = name (file_of d),
               entry_confidence = confidence d\<rparr>)
       (filter pipeline_bearing ds) \<and>
   sum_unknown (getFilesSummary ds) =
     map (\<lambda>d. name (file_of d)) (filter (\<lambda>d. dtype d = Unknown) ds)"
  using summary_pipelines [of ds]
  by (simp add: summary_video summary_audio summary_unknown summary_entry_of_def [abs_def])

text \<open>
  Seven classified files: two videos, an audio file, a labelled person-tracking file, a
  scene-detection file without a label, a bundle and a file of unknown type.
\<close>

theorem getFilesSummary_groups_witness:
  "sum_video (getFilesSummary demo_summary_files) = Some ''broken.mp4'' \<and>
   sum_audio (getFilesSummary demo_summary_files) = Some ''clip.wav'' \<and>
   sum_pipelines (getFilesSummary demo_summary_files) =
     [\<lparr>entry_name = ''person_tracking'', entry_file = ''person.json'',
       entry_confidence = 0.8\<rparr>,
      \<lparr>entry_name = ''scene_detection'', entry_file = ''data.json'',
       entry_confidence = 0.5\<rparr>,
      \<lparr>entry_name = ''complete_results'', entry_file = ''complete_results.json'',
       entry_confidence = 0.95\<rparr>] \<and>
   sum_unknown (getFilesSummary demo_summary_files) = [''notes.txt'']"
  using getFilesSummary_groups [of demo_summary_files]
  by (simp add: last_name_def pipeline_bearing_def summary_label_def demo_defs)

subsection \<open>The loop of the merge\<close>

lemma run_files_Nil [simp]: "run_files E cb t [] s = s"
  by (simp add: run_files_def)

lemma run_files_Cons [simp]:
  "run_files E cb t (d # ds) s = run_files E cb t ds (processFile E cb t d s)"
  by (simp add: run_files_def)


lemma processRemaining_run:
  "processRemaining E cb t found objs s =
   run_files E cb t (map snd (filter (\<lambda>f. Some f \<noteq> found) objs)) s"
  by (induction objs arbitrary: s) auto

lemma accumulate_run:
  "accumulate E objs cb =
   run_files E cb (length objs) (map snd (loop_objects objs)) (loop_start E cb objs)"
  by (simp add: accumulate_def Let_def processRemaining_run loop_objects_def loop_start_def)

lemma find_complete_results_Some:
  "find_complete_results objs = Some c \<Longrightarrow> c \<in> set objs \<and> dtype (snd c) = CompleteResults"
  by (auto simp: find_complete_results_def find_Some_iff)

lemma loop_objects_None: "find_complete_results objs = None \<Longrightarrow> loop_objects objs = objs"
  by (simp add: loop_objects_def)

lemma filter_loop_objects:
  assumes "\<And>d. P d \<Longrightarrow> dtype d \<noteq> CompleteResults"
  shows "filter P (map snd (loop_objects objs)) = filter P (map snd objs)"
proof -
  have "filter (\<lambda>f. P (snd f)) (loop_objects objs) = filter (\<lambda>f. P (snd f)) objs"
    unfolding loop_objects_def filter_filter
  proof (rule filter_cong [OF refl])
    fix f assume "f \<in> set objs"
    show "(Some f \<noteq> find_complete_results objs \<and> P (snd f)) = P (snd f)"
      using assms [of "snd f"] find_complete_results_Some [of objs f] by auto
  qed
  then show ?thesis by (simp add: filter_map comp_def)
qed

lemma set_loop_objects: "set (loop_objects objs) \<subseteq> set objs"
  by (auto simp: loop_objects_def)

lemma set_visited: "set (visited objs) = set objs"
  by (cases "find_complete_results objs")
     (auto simp: visited_def loop_objects_def dest: find_complete_results_Some)

lemma length_loop_objects:
  "length (loop_objects objs) + length (filter (\<lambda>f. Some f = find_complete_results objs) objs) =
   length objs"
  unfolding loop_objects_def
  using sum_length_filter_compl [of "\<lambda>f. Some f = find_complete_results objs" objs]
  by (simp add: add.commute)

lemma bundle_occurs:
  "find_complete_results objs = Some c \<Longrightarrow>
   0 < length (filter (\<lambda>f. Some f = find_complete_results objs) objs)"
  using find_complete_results_Some [of objs c] by (auto simp: filter_empty_conv)

lemma visited_once:
  assumes "bundle_once objs"
  shows "mset (visited objs) = mset objs"
proof (cases "find_complete_results objs")
  case None
  then show ?thesis by (simp add: visited_def)
next
  case (Some c)
  from bundle_occurs [OF Some]
  have "0 < length (filter (\<lambda>f. Some f = find_complete_results objs) objs)" .
  moreover from assms
  have "length (filter (\<lambda>f. Some f = find_complete_results objs) objs) \<le> 1"
    by (simp only: bundle_once_def)
  ultimately have one: "length (filter (\<lambda>f. Some f = find_complete_results objs) objs) = 1"
    by linarith
  have same: "(\<lambda>f. Some f = find_complete_results objs) = (\<lambda>f. f = c)"
    by (auto simp: Some)
  from one have "length (filter (\<lambda>f. f = c) objs) = Suc 0"
    unfolding same by simp
  then obtain x where fx: "filter (\<lambda>f. f = c) objs = [x]"
    by (cases "filter (\<lambda>f. f = c) objs") simp_all
  have "x \<in> set (filter (\<lambda>f. f = c) objs)" unfolding fx by simp
  then have xc: "x = c" by simp
  have single: "filter_mset (\<lambda>f. f = c) (mset objs) = {#c#}"
    unfolding mset_filter [symmetric] fx xc by simp
  have part: "filter_mset (\<lambda>f. f = c) (mset objs) + filter_mset (\<lambda>f. f \<noteq> c) (mset objs) =
      mset objs"
    by (rule multiset_partition [symmetric])
  have "loop_objects objs = filter (\<lambda>f. f \<noteq> c) objs"
    by (simp add: loop_objects_def Some eq_commute)
  then have "mset (visited objs) = {#c#} + filter_mset (\<lambda>f. f \<noteq> c) (mset objs)"
    by (simp add: visited_def Some)
  also have "\<dots> = mset objs" unfolding single [symmetric] by (rule part)
  finally show ?thesis .
qed

lemma progress_labels_append:
  "progress_labels (xs @ ys) = progress_labels xs @ progress_labels ys"
  by (induction xs rule: progress_labels.induct) auto

lemma switch_type_cases:
  "dtype d = Video \<Longrightarrow> switch_type E d s = s\<lparr>videoFile := Some (file_of d)\<rparr>"
  "dtype d = Audio \<Longrightarrow> switch_type E d s = s\<lparr>audioFile := Some (file_of d)\<rparr>"
  "dtype d = CompleteResults \<Longrightarrow> switch_type E d s = s"
  "dtype d = Unknown \<Longrightarrow> switch_type E d s = push_warning (unknown_warning (file_of d)) s"
  "dtype d = PersonTracking \<Longrightarrow> switch_type E d s =
     (if length_is_zero (personTracking s) then
        (case parseCOCOPersonData E (file_of d) of
           Inl e \<Rightarrow> push_warning (parse_warning (file_of d) e) (emit (Call ParseCOCOPersonData (file_of d)) s)
         | Inr r \<Rightarrow> push_pipeline ''person_tracking''
                     ((emit (Call ParseCOCOPersonData (file_of d)) s)\<lparr>personTracking := JArr r\<rparr>))
      else s)"
  "dtype d = FaceAnalysis \<Longrightarrow> switch_type E d s =
     (if length_is_zero (faceAnalysis s) then
        (case parseFaceAnalysis E (file_of d) of
           Inl e \<Rightarrow> push_warning (parse_warning (file_of d) e) (emit (Call ParseFaceAnalysis (file_of d)) s)
         | Inr r \<Rightarrow> push_pipeline ''face_analysis''
                     ((emit (Call ParseFaceAnalysis (file_of d)) s)\<lparr>faceAnalysis := JArr r\<rparr>))
      else s)"
  "dtype d = SceneDetection \<Longrightarrow> switch_type E d s =
     (if length_is_zero (sceneDetection s) then
        (case parseSceneDetection E (file_of d) of
           Inl e \<Rightarrow> push_warning (parse_warning (file_of d) e) (emit (Call ParseSceneDetection (file_of d)) s)
         | Inr r \<Rightarrow> push_pipeline ''scene_detection''
                     ((emit (Call ParseSceneDetection (file_of d)) s)\<lparr>sceneDetection := JArr r\<rparr>))
      else s)"
  "dtype d = SpeechRecognition \<Longrightarrow> switch_type E d s =
     (case parseWebVTT E (file_of d) of
        Inl e \<Rightarrow> push_warning (parse_warning (file_of d) e) (emit (Call ParseWebVTT (file_of d)) s)
      | Inr r \<Rightarrow> push_pipeline ''speech_recognition''
                  ((emit (Call ParseWebVTT (file_of d)) s)\<lparr>speechRecognition := r\<rparr>))"
  "dtype d = SpeakerDiarization \<Longrightarrow> switch_type E d s =
     (case parseRTTM E (file_of d) of
        Inl e \<Rightarrow> push_warning (parse_warning (file_of d) e) (emit (Call ParseRTTM (file_of d)) s)
      | Inr r \<Rightarrow> push_pipeline ''speaker_diarization''
                  ((emit (Call ParseRTTM (file_of d)) s)\<lparr>speakerDiarization := r\<rparr>))"
  by (simp_all add: switch_type_def Let_def)

lemmas state_defs = Let_def emit_def push_warning_def push_pipeline_def

lemmas step_defs = processFile_def switch_type_cases state_defs

lemma processFile_processedFiles:
  "processedFiles (processFile E cb t d s) = Suc (processedFiles s)"
  by (cases "dtype d") (simp_all add: step_defs split: sum.splits option.splits)

lemma processFile_videoFile:
  "videoFile (processFile E cb t d s) =
     (if call_progress cb (processing_label (file_of d)) (processedFiles s) t s = None \<and>
         dtype d = Video
      then Some (file_of d) else videoFile s)"
  by (cases "dtype d") (simp_all add: step_defs split: sum.splits option.splits)

lemma processFile_labels:
  "progress_labels (events (processFile E cb t d s)) =
   progress_labels (events s) @ [processing_label (file_of d)]"
  by (cases "dtype d")
     (simp_all add: step_defs progress_labels_append split: sum.splits option.splits)



lemma call_progress_quiet: "quiet cb \<Longrightarrow> call_progress cb l p t s = None"
  by (cases cb) (simp_all add: quiet_def call_progress_def)

lemma run_files_processedFiles:
  "processedFiles (run_files E cb t ds s) = processedFiles s + length ds"
  by (induction ds arbitrary: s) (auto simp: processFile_processedFiles)

lemma run_files_labels:
  "progress_labels (events (run_files E cb t ds s)) =
   progress_labels (events s) @ map (\<lambda>d. processing_label (file_of d)) ds"
  by (induction ds arbitrary: s) (auto simp: processFile_labels)


lemma run_files_no_video:
  "\<forall>d \<in> set ds. dtype d \<noteq> Video \<Longrightarrow> videoFile (run_files E cb t ds s) = videoFile s"
  by (induction ds arbitrary: s) (simp_all add: processFile_videoFile)



subsection \<open>The block of the bundle\<close>

lemma adopt_completes:
  "(\<exists>s'. adoptCompleteResults E r s = Inr s') \<longleftrightarrow>
   reads E (cr_personTracking r) \<and> reads E (cr_faceAnalysis r) \<and> reads E (cr_sceneDetection r)"
  by (auto simp: adoptCompleteResults_def reads_def state_defs split: sum.splits if_splits)

lemma adopted_same:
  "warnings (adopted (adoptCompleteResults E r s)) = warnings s"
  "events (adopted (adoptCompleteResults E r s)) = events s"
  "videoFile (adopted (adoptCompleteResults E r s)) = videoFile s"
  "audioFile (adopted (adoptCompleteResults E r s)) = audioFile s"
  "speechRecognition (adopted (adoptCompleteResults E r s)) = speechRecognition s"
  "speakerDiarization (adopted (adoptCompleteResults E r s)) = speakerDiarization s"
  "personTracking (adopted (adoptCompleteResults E r s)) = cr_personTracking r"
  "faceAnalysis (adopted (adoptCompleteResults E r s)) = cr_faceAnalysis r"
  "sceneDetection (adopted (adoptCompleteResults E r s)) = cr_sceneDetection r"
  by (simp_all add: adoptCompleteResults_def adopted_def state_defs split: sum.splits)

lemma adopted_processedFiles:
  "processedFiles (adopted (adoptCompleteResults E r s)) =
     (if reads E (cr_personTracking r) \<and> reads E (cr_faceAnalysis r) \<and>
         reads E (cr_sceneDetection r)
      then Suc (processedFiles s) else processedFiles s)"
  by (auto simp: adoptCompleteResults_def adopted_def reads_def state_defs split: sum.splits if_splits)

text \<open>The block in three cases: the callback throws, the extractor throws, the extractor returns.\<close>

lemma processCompleteResults_cases:
  "call_progress cb (processing_label (file_of crf)) (processedFiles s) t s = Some e \<Longrightarrow>
   processCompleteResults E cb t crf s =
     push_warning (complete_results_warning (file_of crf) e)
       (emit (Progress (processing_label (file_of crf)) (processedFiles s) t (Some e)) s)"
  "call_progress cb (processing_label (file_of crf)) (processedFiles s) t s = None \<Longrightarrow>
   parseCompleteResults E (file_of crf) = Inl e \<Longrightarrow>
   processCompleteResults E cb t crf s =
     push_warning (complete_results_warning (file_of crf) e)
       (emit (Call ParseCompleteResults (file_of crf))
          (emit (Progress (processing_label (file_of crf)) (processedFiles s) t None) s))"
  "call_progress cb (processing_label (file_of crf)) (processedFiles s) t s = None \<Longrightarrow>
   parseCompleteResults E (file_of crf) = Inr r \<Longrightarrow>
   processCompleteResults E cb t crf s =
     (let x = adoptCompleteResults E r
                (emit (Call ParseCompleteResults (file_of crf))
                   (emit (Progress (processing_label (file_of crf)) (processedFiles s) t None) s))
      in case adopt_error x of
           Some e \<Rightarrow> push_warning (complete_results_warning (file_of crf) e) (adopted x)
         | None \<Rightarrow> adopted x)"
  by (simp_all add: processCompleteResults_def Let_def adopted_def adopt_error_def
      split: sum.splits prod.splits)

lemma bundle_block_cases:
  obtains (callback) e where
      "call_progress cb (processing_label (file_of crf)) (processedFiles s) t s = Some e"
  | (extractor) e where
      "call_progress cb (processing_label (file_of crf)) (processedFiles s) t s = None"
      "parseCompleteResults E (file_of crf) = Inl e"
  | (adopt) r where
      "call_progress cb (processing_label (file_of crf)) (processedFiles s) t s = None"
      "parseCompleteResults E (file_of crf) = Inr r"
  by (cases "call_progress cb (processing_label (file_of crf)) (processedFiles s) t s";
      cases "parseCompleteResults E (file_of crf)") auto

lemma processCompleteResults_videoFile:
  "videoFile (processCompleteResults E cb t crf s) = videoFile s"
  by (cases rule: bundle_block_cases [where cb=cb and crf=crf and s=s and t=t and E=E])
     (simp_all add: processCompleteResults_cases Let_def adopted_same state_defs
        split: option.splits)

lemma processCompleteResults_labels:
  "progress_labels (events (processCompleteResults E cb t crf s)) =
   progress_labels (events s) @ [processing_label (file_of crf)]"
  by (cases rule: bundle_block_cases [where cb=cb and crf=crf and s=s and t=t and E=E])
     (simp_all add: processCompleteResults_cases Let_def adopted_same state_defs
        progress_labels_append split: option.splits)

lemma processCompleteResults_processedFiles:
  "processedFiles (processCompleteResults E cb t crf s) =
     (if call_progress cb (processing_label (file_of crf)) (processedFiles s) t s = None \<and>
         (case parseCompleteResults E (file_of crf) of
            Inl e \<Rightarrow> False
          | Inr r \<Rightarrow> reads E (cr_personTracking r) \<and> reads E (cr_faceAnalysis r) \<and>
                     reads E (cr_sceneDetection r))
      then Suc (processedFiles s) else processedFiles s)"
proof (cases rule: bundle_block_cases [where cb=cb and crf=crf and s=s and t=t and E=E])
  case (callback e)
  then show ?thesis by (simp add: processCompleteResults_cases state_defs)
next
  case (extractor e)
  then show ?thesis by (simp add: processCompleteResults_cases state_defs)
next
  case (adopt r)
  let ?s2 = "emit (Call ParseCompleteResults (file_of crf))
       (emit (Progress (processing_label (file_of crf)) (processedFiles s) t None) s)"
  have p: "processedFiles ?s2 = processedFiles s" by (simp add: emit_def)
  have "processedFiles (processCompleteResults E cb t crf s) =
      processedFiles (adopted (adoptCompleteResults E r ?s2))"
    using adopt
    by (simp add: processCompleteResults_cases Let_def push_warning_def split: option.splits)
  with adopt show ?thesis
    by (simp only: adopted_processedFiles p sum.case simp_thms)

qed

lemma loop_start_videoFile: "videoFile (loop_start E cb objs) = None"
  by (simp add: loop_start_def processCompleteResults_videoFile initial_state_def
      split: option.splits)

lemma loop_start_processedFiles:
  "processedFiles (loop_start E cb objs) = (if bundle_completes E cb objs then 1 else 0)"
proof (cases "find_complete_results objs")
  case None
  then show ?thesis by (simp add: loop_start_def bundle_completes_def initial_state_def)
next
  case (Some c)
  have z: "processedFiles initial_state = 0" by (simp add: initial_state_def)
  show ?thesis
    by (simp add: loop_start_def bundle_completes_def Some processCompleteResults_processedFiles
        z object_label_def)
qed

lemma loop_start_labels:
  "progress_labels (events (loop_start E cb objs)) =
     (case find_complete_results objs of None \<Rightarrow> [] | Some c \<Rightarrow> [object_label c])"
  by (simp add: loop_start_def processCompleteResults_labels initial_state_def object_label_def
      split: option.splits)

subsection \<open>The state when the loop is left\<close>

lemma accumulate_no_video:
  assumes "\<forall>f \<in> set objs. dtype (snd f) \<noteq> Video"
  shows "videoFile (accumulate E objs cb) = None"
proof -
  from assms set_loop_objects [of objs]
  have "\<forall>d \<in> set (map snd (loop_objects objs)). dtype d \<noteq> Video" by auto
  then show ?thesis
    by (simp only: accumulate_run run_files_no_video loop_start_videoFile)
qed


lemma accumulate_labels:
  "progress_labels (events (accumulate E objs cb)) = map object_label (visited objs)"
  by (simp add: accumulate_run run_files_labels loop_start_labels visited_def object_label_def
      comp_def loop_objects_None split: option.splits)

lemma accumulate_processedFiles:
  "processedFiles (accumulate E objs cb) =
   length (loop_objects objs) + (if bundle_completes E cb objs then 1 else 0)"
  by (simp add: accumulate_run run_files_processedFiles loop_start_processedFiles)

subsection \<open>After the loop\<close>

lemma build_data_events: "build_data E (emit e s) info = build_data E s info"
  by (simp add: build_data_def emit_def cong: sum.case_cong if_cong)

lemma report_events: "report E (emit e s) = report E s"
  by (simp add: report_def emit_def)

lemma build_data_fields:
  assumes "build_data E s info = Inr d"
  shows "person_tracking d = if_positive E (personTracking s)"
    and "scene_detection d = if_positive E (sceneDetection s)"
    and "face_analysis d = if_positive E (faceAnalysis s)"
    and "speech_recognition d = if_nonempty (speechRecognition s)"
    and "speaker_diarization d = if_nonempty (speakerDiarization s)"
    and "pipelines (metadata d) = pipelinesFound s"
    and "audio_file d = audioFile s"
  using assms
  by (auto simp: build_data_def Let_def if_positive_def split: sum.splits if_splits)

lemma build_data_reads:
  "(\<exists>d. build_data E s info = Inr d) \<longleftrightarrow>
   reads E (personTracking s) \<and> reads E (sceneDetection s) \<and> reads E (faceAnalysis s)"
  by (auto simp: build_data_def Let_def reads_def split: sum.splits)


text \<open>The outcome of the last phase, case by case.\<close>

lemma finish_result:
  "snd (finish E cb t s) =
     (case videoFile s of
        None \<Rightarrow> Inl (Error ''No video file provided'')
      | Some v \<Rightarrow>
          (case call_progress cb ''Extracting video metadata'' (processedFiles s) (t + 1) s of
             Some e \<Rightarrow> Inl e
           | None \<Rightarrow>
               (case extractVideoInfo E v of
                  Inl e \<Rightarrow> Inl e
                | Inr info \<Rightarrow>
                    (case build_data E s info of
                       Inl e \<Rightarrow> Inl e
                     | Inr d \<Rightarrow>
                         (case call_progress cb ''Merging complete'' (t + 1) (t + 1)
                                 (emit (Call ExtractVideoInfo v)
                                    (emit (Progress ''Extracting video metadata''
                                             (processedFiles s) (t + 1) None) s)) of
                            Some e \<Rightarrow> Inl e
                          | None \<Rightarrow> Inr \<lparr>data = d, result_metadata = report E s\<rparr>)))))"
  by (simp add: finish_def Let_def build_data_events report_events
      split: option.splits sum.splits)

lemma finish_Inr:
  assumes "snd (finish E cb t s) = Inr result"
  obtains v info d where "videoFile s = Some v" "extractVideoInfo E v = Inr info"
    "build_data E s info = Inr d" "result = \<lparr>data = d, result_metadata = report E s\<rparr>"
  using assms unfolding finish_result
  by (auto split: option.splits sum.splits)

lemma finish_quiet:
  assumes "quiet cb" "videoFile s = Some v"
  shows "snd (finish E cb t s) =
     (case extractVideoInfo E v of
        Inl e \<Rightarrow> Inl e
      | Inr info \<Rightarrow>
          (case build_data E s info of
             Inl e \<Rightarrow> Inl e
           | Inr d \<Rightarrow> Inr \<lparr>data = d, result_metadata = report E s\<rparr>))"
  using assms by (simp add: finish_result call_progress_quiet split: sum.splits)

lemma finish_trace_no_video: "videoFile s = None \<Longrightarrow> fst (finish E cb t s) = events s"
  by (simp add: finish_def)

lemma finish_calls:
  "Call c f \<in> set (fst (finish E cb t s)) \<Longrightarrow> c \<noteq> ExtractVideoInfo \<Longrightarrow> Call c f \<in> set (events s)"
  by (auto simp: finish_def Let_def emit_def split: option.splits sum.splits)

lemma report_fields:
  "meta_filesProcessed (report E s) = processedFiles s"
  "meta_pipelinesFound (report E s) = pipelinesFound s"
  "meta_warnings (report E s) = warnings s"
  by (simp_all add: report_def)

lemma positive_not_empty: "if_positive E v \<noteq> Some (JArr [])"
  by (auto simp: if_positive_def length_gt0_def to_number_def split: sum.splits bool.splits)

subsection \<open>No slot is ever null\<close>

text \<open>
  The length of a slot is read without a test for \<open>null\<close>. The reads are safe: a slot
  holds the empty sequence, a sequence returned by a decoder, or what
  \<open>section?.results || []\<close> gave, and each of these is truthy.
\<close>

lemma section_results_truthy: "truthy (section_results sec)"
  by (simp add: section_results_def split: option.splits json.splits)

lemma parseCompleteResults_truthy:
  "parseCompleteResults E f = Inr r \<Longrightarrow>
   truthy (cr_personTracking r) \<and> truthy (cr_faceAnalysis r) \<and> truthy (cr_sceneDetection r)"
  by (auto simp: parseCompleteResults_def section_results_truthy
      split: sum.splits json.splits option.splits)

lemma processCompleteResults_truthy:
  "slots_truthy s \<Longrightarrow> slots_truthy (processCompleteResults E cb t crf s)"
proof (cases rule: bundle_block_cases [where cb=cb and crf=crf and s=s and t=t and E=E])
  case (callback e)
  moreover assume "slots_truthy s"
  ultimately show ?thesis
    by (simp add: processCompleteResults_cases state_defs slots_truthy_def)
next
  case (extractor e)
  moreover assume "slots_truthy s"
  ultimately show ?thesis
    by (simp add: processCompleteResults_cases state_defs slots_truthy_def)
next
  case (adopt r)
  with parseCompleteResults_truthy [OF adopt(2)] show ?thesis
    by (simp add: processCompleteResults_cases Let_def adopted_same push_warning_def
        slots_truthy_def split: option.splits)
qed

lemma processFile_truthy: "slots_truthy s \<Longrightarrow> slots_truthy (processFile E cb t d s)"
  by (cases "dtype d";
      cases "call_progress cb (processing_label (file_of d)) (processedFiles s) t s")
     (simp_all add: step_defs slots_truthy_def split: sum.splits)

lemma run_files_truthy: "slots_truthy s \<Longrightarrow> slots_truthy (run_files E cb t ds s)"
  by (induction ds arbitrary: s) (simp_all add: processFile_truthy)

lemma accumulate_truthy: "slots_truthy (accumulate E objs cb)"
proof -
  have "slots_truthy initial_state" by (simp add: slots_truthy_def initial_state_def)
  then have "slots_truthy (loop_start E cb objs)"
    by (simp add: loop_start_def processCompleteResults_truthy split: option.splits)
  then show ?thesis by (simp add: accumulate_run run_files_truthy)
qed

text \<open>
  Claim C1. When no object of the input array has type video the merge throws the
  missing-video error and returns no result, whatever the progress callback does. The
  error is thrown after the loop: by then the progress callback has been called for the
  complete-results object found first and then for every other object in array order,
  so for every object of the array, and once per element when the complete-results
  object stands at one place of the array only.
\<close>

theorem merge_without_video_fails:
  assumes "\<forall>f \<in> set detectedFiles. dtype (snd f) \<noteq> Video"
  shows "snd (mergeAnnotationData E detectedFiles onProgress) =
           Inl (Error ''No video file provided'') \<and>
         progress_labels (fst (mergeAnnotationData E detectedFiles onProgress)) =
           map object_label (visited detectedFiles) \<and>
         set (visited detectedFiles) = set detectedFiles \<and>
         (bundle_once detectedFiles \<longrightarrow>
            mset (progress_labels (fst (mergeAnnotationData E detectedFiles onProgress))) =
              mset (map object_label detectedFiles))"
proof -
  from assms have v: "videoFile (accumulate E detectedFiles onProgress) = None"
    by (rule accumulate_no_video)
  then have r: "snd (mergeAnnotationData E detectedFiles onProgress) =
      Inl (Error ''No video file provided'')"
    by (simp add: mergeAnnotationData_def finish_result)
  from v have l: "progress_labels (fst (mergeAnnotationData E detectedFiles onProgress)) =
      map object_label (visited detectedFiles)"
    by (simp add: mergeAnnotationData_def finish_trace_no_video accumulate_labels)
  have "mset (map object_label (visited detectedFiles)) = mset (map object_label detectedFiles)"
    if "bundle_once detectedFiles"
    using visited_once [OF that] by (metis mset_map)
  with r l set_visited show ?thesis by simp
qed

text \<open>
  A transcript and a bundle, with a callback that throws at the transcript: the bundle
  comes first, both are visited, and the error is the missing video.
\<close>

theorem merge_without_video_fails_witness:
  "dtype demo_vtt \<noteq> Video \<and> dtype demo_complete \<noteq> Video \<and> bundle_once demo_no_video \<and>
   snd (mergeAnnotationData demo_env demo_no_video demo_callback) =
     Inl (Error ''No video file provided'') \<and>
   progress_labels (fst (mergeAnnotationData demo_env demo_no_video demo_callback)) =
     [''Processing complete_results.json'', ''Processing clip.vtt''] \<and>
   mset (progress_labels (fst (mergeAnnotationData demo_env demo_no_video demo_callback))) =
     mset (map object_label demo_no_video)"
proof -
  have h: "\<forall>f \<in> set demo_no_video. dtype (snd f) \<noteq> Video"
    by (simp add: demo_no_video_def demo_vtt_def demo_complete_def detected_def)
  have v: "visited demo_no_video = [(1, demo_complete), (0, demo_vtt)]"
    by (simp add: visited_def loop_objects_def find_complete_results_def demo_no_video_def
        demo_vtt_def demo_complete_def detected_def)
  have b: "bundle_once demo_no_video"
    by (simp add: bundle_once_def find_complete_results_def demo_no_video_def
        demo_vtt_def demo_complete_def detected_def)
  from merge_without_video_fails [OF h, of demo_env demo_callback] h v b show ?thesis
    by (simp add: object_label_def processing_label_def demo_no_video_def demo_vtt_def
        demo_complete_def detected_def clip_vtt_def results_json_def)
qed

text \<open>
  Claim C4. In a returned record each pipeline key holds the value accumulated for its
  pipeline when the length of that value is positive, and is absent otherwise; no key
  holds an empty sequence.
\<close>

theorem no_empty_pipeline_key:
  assumes "snd (mergeAnnotationData E detectedFiles onProgress) = Inr result"
  shows "person_tracking (data result) =
           if_positive E (personTracking (accumulate E detectedFiles onProgress)) \<and>
         speech_recognition (data result) =
           if_nonempty (speechRecognition (accumulate E detectedFiles onProgress)) \<and>
         speaker_diarization (data result) =
           if_nonempty (speakerDiarization (accumulate E detectedFiles onProgress)) \<and>
         scene_detection (data result) =
           if_positive E (sceneDetection (accumulate E detectedFiles onProgress)) \<and>
         face_analysis (data result) =
           if_positive E (faceAnalysis (accumulate E detectedFiles onProgress)) \<and>
         person_tracking (data result) \<noteq> Some (JArr []) \<and>
         speech_recognition (data result) \<noteq> Some [] \<and>
         speaker_diarization (data result) \<noteq> Some [] \<and>
         scene_detection (data result) \<noteq> Some (JArr []) \<and>
         face_analysis (data result) \<noteq> Some (JArr [])"
proof -
  from assms obtain info d where
    b: "build_data E (accumulate E detectedFiles onProgress) info = Inr d" and
    r: "result = \<lparr>data = d, result_metadata = report E (accumulate E detectedFiles onProgress)\<rparr>"
    unfolding mergeAnnotationData_def by (rule finish_Inr)
  from r have d: "data result = d" by simp
  show ?thesis
    unfolding d build_data_fields [OF b]
    by (simp add: positive_not_empty if_nonempty_def)
qed

text \<open>The run on the five objects: person tracking is present, scene detection absent.\<close>

theorem no_empty_pipeline_key_witness:
  "snd (mergeAnnotationData demo_env demo_files None) = Inr demo_result \<and>
   person_tracking (data demo_result) = Some (JArr [JObj [(''id'', JNum 1)]]) \<and>
   person_tracking (data demo_result) =
     if_positive demo_env (personTracking (accumulate demo_env demo_files None)) \<and>
   scene_detection (data demo_result) = None \<and>
   if_positive demo_env (sceneDetection (accumulate demo_env demo_files None)) = None"
proof -
  have a: "scene_detection (data demo_result) = None"
    "person_tracking (data demo_result) = Some (JArr [JObj [(''id'', JNum 1)]])"
    by (simp_all add: demo_result_def)
  from no_empty_pipeline_key [OF demo_run]
  have c: "person_tracking (data demo_result) =
      if_positive demo_env (personTracking (accumulate demo_env demo_files None))"
    and d: "scene_detection (data demo_result) =
      if_positive demo_env (sceneDetection (accumulate demo_env demo_files None))"
    by blast+
  from a c d demo_run show ?thesis by simp
qed

subsection \<open>Pipelines found\<close>

lemma returned_pipelines_append:
  "returned_pipelines E (xs @ ys) = returned_pipelines E xs @ returned_pipelines E ys"
  by (induction E xs rule: returned_pipelines.induct) simp_all

lemma positive_not_zero: "length_gt0 E v = Inr True \<Longrightarrow> \<not> length_is_zero v"
  by (auto simp: length_gt0_def length_is_zero_def to_number_def split: sum.splits)

lemma adopted_pipelines:
  "pipelinesFound (adopted (adoptCompleteResults E r s)) = pipelinesFound s @ bundle_entries E r"
  by (simp add: adoptCompleteResults_def adopted_def bundle_entries_def state_defs
      split: sum.splits)

lemma processCompleteResults_pipelines:
  "pipelinesFound (processCompleteResults E cb t crf s) =
   pipelinesFound s @
     (if call_progress cb (processing_label (file_of crf)) (processedFiles s) t s = None
      then (case parseCompleteResults E (file_of crf) of
              Inl e \<Rightarrow> []
            | Inr r \<Rightarrow> bundle_entries E r)
      else [])"
  by (cases rule: bundle_block_cases [where cb=cb and crf=crf and s=s and t=t and E=E])
     (simp_all add: processCompleteResults_cases Let_def adopted_same adopted_pipelines
        state_defs split: option.splits)

lemma processCompleteResults_returned:
  "returned_pipelines E (events (processCompleteResults E cb t crf s)) =
   returned_pipelines E (events s)"
  by (cases rule: bundle_block_cases [where cb=cb and crf=crf and s=s and t=t and E=E])
     (simp_all add: processCompleteResults_cases Let_def adopted_same
        state_defs returned_pipelines_append split: option.splits)

lemma loop_start_pipelines:
  "pipelinesFound (loop_start E cb objs) = bundle_pipelines E cb objs"
  "returned_pipelines E (events (loop_start E cb objs)) = []"
  by (simp_all add: loop_start_def bundle_pipelines_def processCompleteResults_pipelines
      processCompleteResults_returned initial_state_def object_label_def split: option.splits)

lemma processFile_found:
  "pipelinesFound s = P @ returned_pipelines E (events s) \<Longrightarrow>
   pipelinesFound (processFile E cb t d s) =
     P @ returned_pipelines E (events (processFile E cb t d s))"
  by (cases "dtype d";
      cases "call_progress cb (processing_label (file_of d)) (processedFiles s) t s")
     (simp_all add: step_defs returned_pipelines_append call_failure_def failure_of_def
        split: sum.splits)

lemma run_files_found:
  "pipelinesFound s = P @ returned_pipelines E (events s) \<Longrightarrow>
   pipelinesFound (run_files E cb t ds s) =
     P @ returned_pipelines E (events (run_files E cb t ds s))"
  by (induction ds arbitrary: s) (simp_all add: processFile_found)

lemma accumulate_found:
  "pipelinesFound (accumulate E objs cb) =
   bundle_pipelines E cb objs @ returned_pipelines E (events (accumulate E objs cb))"
  unfolding accumulate_run
  by (rule run_files_found) (simp add: loop_start_pipelines)

lemma finish_returned:
  "returned_pipelines E (fst (finish E cb t s)) = returned_pipelines E (events s)"
  by (simp add: finish_def Let_def emit_def returned_pipelines_append
      split: option.splits sum.splits)

lemma processFile_found_ok:
  assumes "found_ok s" "nonempty_decodes E d"
    and "speech_decoded E d \<longrightarrow> ''speech_recognition'' \<notin> set (pipelinesFound s)"
    and "diarization_decoded E d \<longrightarrow> ''speaker_diarization'' \<notin> set (pipelinesFound s)"
  shows "found_ok (processFile E cb t d s)"
  using assms
  by (cases "dtype d";
      cases "call_progress cb (processing_label (file_of d)) (processedFiles s) t s")
     (auto simp: step_defs found_ok_def nonempty_decodes_def speech_decoded_def
        diarization_decoded_def decoded_ok_def length_is_zero_def split: sum.splits)

lemma processFile_speech:
  "''speech_recognition'' \<in> set (pipelinesFound (processFile E cb t d s)) \<Longrightarrow>
   ''speech_recognition'' \<in> set (pipelinesFound s) \<or> speech_decoded E d"
  by (cases "dtype d";
      cases "call_progress cb (processing_label (file_of d)) (processedFiles s) t s")
     (auto simp: step_defs speech_decoded_def decoded_ok_def split: sum.splits if_splits)

lemma processFile_diarization:
  "''speaker_diarization'' \<in> set (pipelinesFound (processFile E cb t d s)) \<Longrightarrow>
   ''speaker_diarization'' \<in> set (pipelinesFound s) \<or> diarization_decoded E d"
  by (cases "dtype d";
      cases "call_progress cb (processing_label (file_of d)) (processedFiles s) t s")
     (auto simp: step_defs diarization_decoded_def decoded_ok_def split: sum.splits if_splits)

lemma run_files_found_ok:
  assumes "found_ok s" "\<forall>d \<in> set ds. nonempty_decodes E d"
    and "length (filter (speech_decoded E) ds) \<le> once_more ''speech_recognition'' s"
    and "length (filter (diarization_decoded E) ds) \<le> once_more ''speaker_diarization'' s"
  shows "found_ok (run_files E cb t ds s)"
  using assms
proof (induction ds arbitrary: s)
  case Nil
  then show ?case by simp
next
  case (Cons d ds)
  have sp: "speech_decoded E d \<longrightarrow> ''speech_recognition'' \<notin> set (pipelinesFound s)"
    using Cons.prems(3) by (auto simp: once_more_def split: if_splits)
  have di: "diarization_decoded E d \<longrightarrow> ''speaker_diarization'' \<notin> set (pipelinesFound s)"
    using Cons.prems(4) by (auto simp: once_more_def split: if_splits)
  have ok: "found_ok (processFile E cb t d s)"
    using Cons.prems(1,2) sp di by (intro processFile_found_ok) auto
  have sp': "length (filter (speech_decoded E) ds) \<le>
      once_more ''speech_recognition'' (processFile E cb t d s)"
    using Cons.prems(3) processFile_speech [of E cb t d s]
    by (auto simp: once_more_def split: if_splits)
  have di': "length (filter (diarization_decoded E) ds) \<le>
      once_more ''speaker_diarization'' (processFile E cb t d s)"
    using Cons.prems(4) processFile_diarization [of E cb t d s]
    by (auto simp: once_more_def split: if_splits)
  from Cons.IH [OF ok _ sp' di'] Cons.prems(2) show ?case by simp
qed

lemma bundle_entries_ok:
  "distinct (bundle_entries E r) \<and>
   ''speech_recognition'' \<notin> set (bundle_entries E r) \<and>
   ''speaker_diarization'' \<notin> set (bundle_entries E r) \<and>
   (''person_tracking'' \<in> set (bundle_entries E r) \<longrightarrow> \<not> length_is_zero (cr_personTracking r)) \<and>
   (''face_analysis'' \<in> set (bundle_entries E r) \<longrightarrow> \<not> length_is_zero (cr_faceAnalysis r)) \<and>
   (''scene_detection'' \<in> set (bundle_entries E r) \<longrightarrow> \<not> length_is_zero (cr_sceneDetection r))"
  by (auto simp: bundle_entries_def positive_not_zero split: sum.splits if_splits)

lemma push_warning_found:
  "found_ok (push_warning w s) = found_ok s"
  "once_more p (push_warning w s) = once_more p s"
  by (simp_all add: found_ok_def once_more_def push_warning_def)

lemma processCompleteResults_found:
  "found_ok (processCompleteResults E cb t crf initial_state) \<and>
   once_more ''speech_recognition'' (processCompleteResults E cb t crf initial_state) = 1 \<and>
   once_more ''speaker_diarization'' (processCompleteResults E cb t crf initial_state) = 1"
proof -
  have i: "pipelinesFound initial_state = []" "length_is_zero (personTracking initial_state)"
    "length_is_zero (faceAnalysis initial_state)" "length_is_zero (sceneDetection initial_state)"
    by (simp_all add: initial_state_def length_is_zero_def)
  show ?thesis
  proof (cases rule: bundle_block_cases [where cb=cb and crf=crf and s=initial_state and t=t and E=E])
    case (callback e)
    then show ?thesis
      by (simp add: processCompleteResults_cases state_defs found_ok_def once_more_def i)
  next
    case (extractor e)
    then show ?thesis
      by (simp add: processCompleteResults_cases state_defs found_ok_def once_more_def i)
  next
    case (adopt r)
    let ?s2 = "emit (Call ParseCompleteResults (file_of crf))
       (emit (Progress (processing_label (file_of crf)) (processedFiles initial_state) t None)
          initial_state)"
    have p: "pipelinesFound ?s2 = []" by (simp add: emit_def i)
    have "found_ok (adopted (adoptCompleteResults E r ?s2)) \<and>
      once_more ''speech_recognition'' (adopted (adoptCompleteResults E r ?s2)) = 1 \<and>
      once_more ''speaker_diarization'' (adopted (adoptCompleteResults E r ?s2)) = 1"
      using bundle_entries_ok [of E r]
      by (simp add: found_ok_def once_more_def adopted_pipelines adopted_same p)
    with adopt show ?thesis
      by (simp add: processCompleteResults_cases Let_def push_warning_found
          split: option.splits)
  qed
qed

lemma loop_start_found:
  "found_ok (loop_start E cb objs) \<and>
   once_more ''speech_recognition'' (loop_start E cb objs) = 1 \<and>
   once_more ''speaker_diarization'' (loop_start E cb objs) = 1"
proof (cases "find_complete_results objs")
  case None
  then show ?thesis
    by (simp add: loop_start_def initial_state_def found_ok_def once_more_def)
next
  case (Some a)
  then show ?thesis
    using processCompleteResults_found by (simp add: loop_start_def)
qed

text \<open>
  Claim C3, as the code has it. In a returned result \<open>pipelinesFound\<close> is the list of the
  bundle's pipelines (person_tracking, face_analysis and scene_detection, each when
  the bundle's value for it has positive length, and only when the bundle has been
  extracted) followed by one entry for every decoder call of the run that returned, in
  the order of the calls; the record's \<open>metadata.pipelines\<close> is the same list. It has no
  duplicates when at most one speech_recognition object and at most one
  speaker_diarization object decode and no decoder returns an empty sequence for a
  person_tracking, face_analysis or scene_detection object.
\<close>

theorem pipelinesFound_distinct:
  assumes "snd (mergeAnnotationData E detectedFiles onProgress) = Inr result"
  shows "meta_pipelinesFound (result_metadata result) =
           bundle_pipelines E onProgress detectedFiles @
           returned_pipelines E (fst (mergeAnnotationData E detectedFiles onProgress)) \<and>
         pipelines (metadata (data result)) = meta_pipelinesFound (result_metadata result) \<and>
         (length (filter (\<lambda>f. speech_decoded E (snd f)) detectedFiles) \<le> 1 \<and>
          length (filter (\<lambda>f. diarization_decoded E (snd f)) detectedFiles) \<le> 1 \<and>
          (\<forall>f \<in> set detectedFiles. nonempty_decodes E (snd f)) \<longrightarrow>
            distinct (meta_pipelinesFound (result_metadata result)))"
proof -
  let ?s = "accumulate E detectedFiles onProgress"
  from assms obtain info d where
    b: "build_data E ?s info = Inr d" and
    r: "result = \<lparr>data = d, result_metadata = report E ?s\<rparr>"
    unfolding mergeAnnotationData_def by (rule finish_Inr)
  from r have m: "meta_pipelinesFound (result_metadata result) = pipelinesFound ?s"
    by (simp add: report_fields)
  from r have p: "pipelines (metadata (data result)) = pipelinesFound ?s"
    by (simp add: build_data_fields [OF b])
  have c: "pipelinesFound ?s =
      bundle_pipelines E onProgress detectedFiles @
      returned_pipelines E (fst (mergeAnnotationData E detectedFiles onProgress))"
    by (simp add: mergeAnnotationData_def finish_returned accumulate_found [symmetric])
  have d: "distinct (pipelinesFound ?s)"
    if h: "length (filter (\<lambda>f. speech_decoded E (snd f)) detectedFiles) \<le> 1"
      "length (filter (\<lambda>f. diarization_decoded E (snd f)) detectedFiles) \<le> 1"
      "\<forall>f \<in> set detectedFiles. nonempty_decodes E (snd f)"
  proof -
    have f1: "filter (speech_decoded E) (map snd (loop_objects detectedFiles)) =
        filter (speech_decoded E) (map snd detectedFiles)"
      by (rule filter_loop_objects) (simp add: speech_decoded_def)
    have f2: "filter (diarization_decoded E) (map snd (loop_objects detectedFiles)) =
        filter (diarization_decoded E) (map snd detectedFiles)"
      by (rule filter_loop_objects) (simp add: diarization_decoded_def)
    have l1: "length (filter (speech_decoded E) (map snd detectedFiles)) \<le> 1"
      using h(1) by (simp add: filter_map comp_def)
    have l2: "length (filter (diarization_decoded E) (map snd detectedFiles)) \<le> 1"
      using h(2) by (simp add: filter_map comp_def)
    have ne: "\<forall>d \<in> set (map snd (loop_objects detectedFiles)). nonempty_decodes E d"
      using h(3) set_loop_objects [of detectedFiles] by auto
    have "found_ok (run_files E onProgress (length detectedFiles)
        (map snd (loop_objects detectedFiles)) (loop_start E onProgress detectedFiles))"
      using loop_start_found [of E onProgress detectedFiles] ne l1 l2
      by (intro run_files_found_ok) (simp_all add: f1 f2)
    then show ?thesis by (simp add: accumulate_run found_ok_def)
  qed
  from m p c d show ?thesis by simp
qed

text \<open>The run on the five objects.\<close>

theorem pipelinesFound_distinct_witness:
  "snd (mergeAnnotationData demo_env demo_files None) = Inr demo_result \<and>
   length (filter (\<lambda>f. speech_decoded demo_env (snd f)) demo_files) \<le> 1 \<and>
   length (filter (\<lambda>f. diarization_decoded demo_env (snd f)) demo_files) \<le> 1 \<and>
   nonempty_decodes demo_env demo_person \<and>
   bundle_pipelines demo_env None demo_files = [''person_tracking''] \<and>
   returned_pipelines demo_env (fst (mergeAnnotationData demo_env demo_files None)) =
     [''speech_recognition''] \<and>
   meta_pipelinesFound (result_metadata demo_result) =
     [''person_tracking'', ''speech_recognition''] \<and>
   pipelines (metadata (data demo_result)) = [''person_tracking'', ''speech_recognition''] \<and>
   distinct (meta_pipelinesFound (result_metadata demo_result))"
proof -
  have h2: "length (filter (\<lambda>f. speech_decoded demo_env (snd f)) demo_files) \<le> 1"
    by (simp add: speech_decoded_def decoded_ok_def run_defs demo_defs)
  have h3: "length (filter (\<lambda>f. diarization_decoded demo_env (snd f)) demo_files) \<le> 1"
    by (simp add: diarization_decoded_def decoded_ok_def demo_defs)
  have h4: "\<forall>f \<in> set demo_files. nonempty_decodes demo_env (snd f)"
    by (simp add: nonempty_decodes_def demo_defs)
  have b: "bundle_pipelines demo_env None demo_files = [''person_tracking'']"
    by (simp add: bundle_pipelines_def demo_found call_progress_def demo_extraction
        bundle_entries_def demo_extract_def length_gt0_def to_number_def)
  have m: "meta_pipelinesFound (result_metadata demo_result) =
      [''person_tracking'', ''speech_recognition'']"
    by (simp add: demo_result_def)
  have h4': "nonempty_decodes demo_env demo_person"
    using h4 by (simp add: demo_files_def)
  from pipelinesFound_distinct [OF demo_run] h2 h3 h4
  have t: "meta_pipelinesFound (result_metadata demo_result) =
      bundle_pipelines demo_env None demo_files @
      returned_pipelines demo_env (fst (mergeAnnotationData demo_env demo_files None))"
    and p: "pipelines (metadata (data demo_result)) =
      meta_pipelinesFound (result_metadata demo_result)"
    and d: "distinct (meta_pipelinesFound (result_metadata demo_result))"
    by blast+
  from t have r: "returned_pipelines demo_env (fst (mergeAnnotationData demo_env demo_files None)) =
      [''speech_recognition'']"
    unfolding b m by simp
  from demo_run h2 h3 h4' b r m p d show ?thesis by simp
qed

text \<open>
  The claim as stated fails: two WebVTT files are both decoded, and each pushes
  \<open>speech_recognition\<close>.
\<close>

theorem pipelinesFound_distinct_counterexample:
  "map_option meta_pipelinesFound
     (merge_report demo_env [(0, demo_video), (1, demo_vtt), (2, demo_extra_vtt)] None) =
     Some [''speech_recognition'', ''speech_recognition'']"
  by (simp add: merge_report_def run_defs demo_defs)

subsection \<open>Precedence of the bundle\<close>

lemma core_eqs:
  assumes "core s = core s'"
  shows "warnings s = warnings s'" "pipelinesFound s = pipelinesFound s'"
    "videoFile s = videoFile s'" "audioFile s = audioFile s'"
    "personTracking s = personTracking s'" "speechRecognition s = speechRecognition s'"
    "speakerDiarization s = speakerDiarization s'" "sceneDetection s = sceneDetection s'"
    "faceAnalysis s = faceAnalysis s'" "processingConfig s = processingConfig s'"
    "processingTime s = processingTime s'" "totalDuration s = totalDuration s'"
    "merge_state.more s = merge_state.more s'"
  using assms unfolding core_def by (cases s; cases s'; simp)+

lemma core_emit: "core (emit e s) = core s"
  by (simp add: core_def emit_def)

lemma core_processFile:
  assumes "core s = core s'" "quiet cb"
  shows "core (processFile E cb t d s) = core (processFile E cb t' d s')"
  by (cases "dtype d")
     (simp_all add: step_defs core_def core_eqs [OF assms(1)] call_progress_quiet [OF assms(2)]
        merge_state.equality split: sum.splits)

lemma core_skip:
  "dtype d = PersonTracking \<Longrightarrow> \<not> length_is_zero (personTracking s) \<Longrightarrow> quiet cb \<Longrightarrow>
   core (processFile E cb t d s) = core s"
  by (simp add: step_defs core_def call_progress_quiet)

lemma processFile_personTracking:
  "\<not> length_is_zero (personTracking s) \<Longrightarrow>
   personTracking (processFile E cb t d s) = personTracking s"
  by (cases "dtype d";
      cases "call_progress cb (processing_label (file_of d)) (processedFiles s) t s")
     (simp_all add: step_defs split: sum.splits)

lemma processFile_no_coco_call:
  "\<not> length_is_zero (personTracking s) \<Longrightarrow>
   Call ParseCOCOPersonData f \<in> set (events (processFile E cb t d s)) \<Longrightarrow>
   Call ParseCOCOPersonData f \<in> set (events s)"
  by (cases "dtype d";
      cases "call_progress cb (processing_label (file_of d)) (processedFiles s) t s")
     (auto simp: step_defs split: sum.splits if_splits)

lemma run_files_personTracking:
  "\<not> length_is_zero (personTracking s) \<Longrightarrow>
   personTracking (run_files E cb t ds s) = personTracking s"
  by (induction ds arbitrary: s) (simp_all add: processFile_personTracking)

lemma run_files_no_coco_call:
  "\<not> length_is_zero (personTracking s) \<Longrightarrow>
   Call ParseCOCOPersonData f \<in> set (events (run_files E cb t ds s)) \<Longrightarrow>
   Call ParseCOCOPersonData f \<in> set (events s)"
proof (induction ds arbitrary: s)
  case Nil
  then show ?case by simp
next
  case (Cons d ds)
  from Cons.prems(1) have ne: "\<not> length_is_zero (personTracking (processFile E cb t d s))"
    by (simp add: processFile_personTracking)
  from Cons.IH [OF ne] Cons.prems(2)
  have "Call ParseCOCOPersonData f \<in> set (events (processFile E cb t d s))"
    by simp
  with Cons.prems(1) show ?case by (rule processFile_no_coco_call)
qed

lemma core_run_files_filtered:
  "\<not> length_is_zero (personTracking s) \<Longrightarrow> core s = core s' \<Longrightarrow> quiet cb \<Longrightarrow>
   core (run_files E cb t ds s) = core (run_files E cb t' (filter not_person_tracking ds) s')"
proof (induction ds arbitrary: s s')
  case Nil
  then show ?case by simp
next
  case (Cons d ds)
  from Cons.prems(1) have ne: "\<not> length_is_zero (personTracking (processFile E cb t d s))"
    by (simp add: processFile_personTracking)
  show ?case
  proof (cases "dtype d = PersonTracking")
    case True
    with Cons.prems have "core (processFile E cb t d s) = core s'" by (simp add: core_skip)
    from Cons.IH [OF ne this Cons.prems(3)] True show ?thesis
      by (simp add: not_person_tracking_def)
  next
    case False
    from Cons.prems(2,3) have "core (processFile E cb t d s) = core (processFile E cb t' d s')"
      by (rule core_processFile)
    from Cons.IH [OF ne this Cons.prems(3)] False show ?thesis
      by (simp add: not_person_tracking_def)
  qed
qed

lemma find_filter:
  "(\<And>x. P x \<Longrightarrow> Q x) \<Longrightarrow> List.find P (filter Q xs) = List.find P xs"
  by (induction xs) auto

lemma find_complete_results_filtered:
  "find_complete_results (filter (\<lambda>f. not_person_tracking (snd f)) objs) =
   find_complete_results objs"
  unfolding find_complete_results_def
  by (rule find_filter) (simp add: not_person_tracking_def)

lemma loop_objects_filtered:
  "map snd (loop_objects (filter (\<lambda>f. not_person_tracking (snd f)) objs)) =
   filter not_person_tracking (map snd (loop_objects objs))"
  by (simp add: loop_objects_def find_complete_results_filtered filter_map comp_def conj_commute)

lemma adopted_closed:
  "adopted (adoptCompleteResults E r s) =
     s\<lparr>personTracking := cr_personTracking r, faceAnalysis := cr_faceAnalysis r,
       sceneDetection := cr_sceneDetection r, processingConfig := cr_config r,
       processingTime :=
         (if truthy (cr_personTracking r) \<and> \<not> reads E (cr_personTracking r)
          then processingTime s else Some (cr_processingTime r)),
       totalDuration :=
         (if truthy (cr_personTracking r) \<and> \<not> reads E (cr_personTracking r)
          then totalDuration s else cr_totalDuration r),
       pipelinesFound := pipelinesFound s @ bundle_entries E r,
       processedFiles :=
         (if reads E (cr_personTracking r) \<and> reads E (cr_faceAnalysis r) \<and>
             reads E (cr_sceneDetection r)
          then Suc (processedFiles s) else processedFiles s)\<rparr>"
  by (simp add: adoptCompleteResults_def adopted_def state_defs bundle_entries_def reads_def
      split: sum.splits)

lemma adopt_error_closed:
  "adopt_error (adoptCompleteResults E r s) =
     (case length_gt0 E (cr_personTracking r) of
        Inl e \<Rightarrow> Some e
      | Inr person \<Rightarrow>
          (case length_gt0 E (cr_faceAnalysis r) of
             Inl e \<Rightarrow> Some e
           | Inr face \<Rightarrow>
               (case length_gt0 E (cr_sceneDetection r) of
                  Inl e \<Rightarrow> Some e
                | Inr scene \<Rightarrow> None)))"
  by (simp add: adoptCompleteResults_def adopt_error_def state_defs split: sum.splits)

lemma core_adopt:
  assumes "core s = core s'"
  shows "core (adopted (adoptCompleteResults E r s)) = core (adopted (adoptCompleteResults E r s'))"
  by (simp add: adopted_closed core_def core_eqs [OF assms] merge_state.equality)

lemma core_push_warning:
  assumes "core s = core s'"
  shows "core (push_warning w s) = core (push_warning w s')"
  by (simp add: core_def push_warning_def core_eqs [OF assms] merge_state.equality)

lemma core_processCompleteResults:
  assumes "quiet cb"
  shows "core (processCompleteResults E cb t crf initial_state) =
         core (processCompleteResults E cb t' crf initial_state)"
proof -
  let ?a = "emit (Call ParseCompleteResults (file_of crf))
       (emit (Progress (processing_label (file_of crf)) (processedFiles initial_state) t None)
          initial_state)"
  let ?b = "emit (Call ParseCompleteResults (file_of crf))
       (emit (Progress (processing_label (file_of crf)) (processedFiles initial_state) t' None)
          initial_state)"
  have c: "core ?a = core ?b" by (simp add: core_emit)
  note q = call_progress_quiet [OF assms]
  show ?thesis
  proof (cases "parseCompleteResults E (file_of crf)")
    case (Inl e)
    then show ?thesis
      by (simp add: processCompleteResults_cases(2) q core_push_warning [OF c])
  next
    case (Inr r)
    have a: "core (adopted (adoptCompleteResults E r ?a)) =
        core (adopted (adoptCompleteResults E r ?b))"
      using c by (rule core_adopt)
    have e: "adopt_error (adoptCompleteResults E r ?a) = adopt_error (adoptCompleteResults E r ?b)"
      by (simp only: adopt_error_closed)
    show ?thesis
      using Inr a core_push_warning [OF a]
      by (simp add: processCompleteResults_cases(3) q Let_def e split: option.splits)
  qed
qed

lemma processCompleteResults_personTracking:
  "call_progress cb (processing_label (file_of crf)) (processedFiles s) t s = None \<Longrightarrow>
   parseCompleteResults E (file_of crf) = Inr r \<Longrightarrow>
   personTracking (processCompleteResults E cb t crf s) = cr_personTracking r"
  by (simp add: processCompleteResults_cases Let_def adopted_same push_warning_def
      split: option.splits)

lemma processCompleteResults_no_coco_call:
  "Call ParseCOCOPersonData f \<in> set (events (processCompleteResults E cb t crf s)) \<Longrightarrow>
   Call ParseCOCOPersonData f \<in> set (events s)"
  by (cases rule: bundle_block_cases [where cb=cb and crf=crf and s=s and t=t and E=E])
     (auto simp: processCompleteResults_cases Let_def adopted_same state_defs
        split: option.splits)

lemma core_build_data:
  assumes "core s = core s'"
  shows "build_data E s info = build_data E s' info"
  by (simp only: build_data_def core_eqs [OF assms])

lemma if_positive_array:
  "\<not> length_is_zero (JArr xs) \<Longrightarrow> if_positive E (JArr xs) = Some (JArr xs)"
  by (simp add: if_positive_def length_gt0_def length_is_zero_def to_number_def)

text \<open>
  Claim C2, as the code has it. When the complete-results object found first is
  extracted (its progress call and the extractor return) and the length of its
  person-tracking value is not 0, the person-tracking decoder is called for no file and
  the slot holds the bundle's value when the loop is left; a returned record carries
  that value under \<open>person_tracking\<close> when its length is positive, as it is for a
  sequence; and, with a progress callback that does not throw, the reduced array without
  the person_tracking objects is merged too, with the same warnings: the skip adds none.
\<close>

theorem bundle_person_tracking_precedence:
  assumes "find_complete_results detectedFiles = Some completeResultsFile"
    and "call_progress onProgress (object_label completeResultsFile) 0 (length detectedFiles)
           initial_state = None"
    and "parseCompleteResults E (file_of (snd completeResultsFile)) = Inr completeResults"
    and "\<not> length_is_zero (cr_personTracking completeResults)"
  shows "(\<forall>f. Call ParseCOCOPersonData f \<notin>
              set (fst (mergeAnnotationData E detectedFiles onProgress))) \<and>
         personTracking (accumulate E detectedFiles onProgress) =
           cr_personTracking completeResults \<and>
         (\<forall>result. snd (mergeAnnotationData E detectedFiles onProgress) = Inr result \<longrightarrow>
            person_tracking (data result) = if_positive E (cr_personTracking completeResults) \<and>
            (\<forall>xs. cr_personTracking completeResults = JArr xs \<longrightarrow>
               person_tracking (data result) = Some (JArr xs)) \<and>
            (quiet onProgress \<longrightarrow>
               (\<exists>result'.
                  snd (mergeAnnotationData E
                         (filter (\<lambda>f. not_person_tracking (snd f)) detectedFiles) onProgress) =
                    Inr result' \<and>
                  meta_warnings (result_metadata result) =
                    meta_warnings (result_metadata result'))))"
proof -
  let ?ds = detectedFiles and ?fs = "filter (\<lambda>f. not_person_tracking (snd f)) detectedFiles"
  let ?start = "loop_start E onProgress ?ds" and ?start' = "loop_start E onProgress ?fs"
  let ?s = "accumulate E ?ds onProgress" and ?s' = "accumulate E ?fs onProgress"
  have z: "processedFiles initial_state = 0" by (simp add: initial_state_def)
  have pt0: "personTracking ?start = cr_personTracking completeResults"
    using assms(1,2,3)
    by (simp add: loop_start_def processCompleteResults_personTracking z object_label_def)
  with assms(4) have ne: "\<not> length_is_zero (personTracking ?start)" by simp
  have pt: "personTracking ?s = cr_personTracking completeResults"
    by (simp add: accumulate_run run_files_personTracking [OF ne] pt0)
  have calls: "\<forall>f. Call ParseCOCOPersonData f \<notin> set (fst (mergeAnnotationData E ?ds onProgress))"
  proof (intro allI notI)
    fix f assume "Call ParseCOCOPersonData f \<in> set (fst (mergeAnnotationData E ?ds onProgress))"
    then have "Call ParseCOCOPersonData f \<in> set (events ?s)"
      unfolding mergeAnnotationData_def by (rule finish_calls) simp
    then have "Call ParseCOCOPersonData f \<in> set (events ?start)"
      unfolding accumulate_run by (rule run_files_no_coco_call [OF ne])
    then have "Call ParseCOCOPersonData f \<in> set (events initial_state)"
      using assms(1) by (simp add: loop_start_def processCompleteResults_no_coco_call)
    then show False by (simp add: initial_state_def)
  qed
  have res: "person_tracking (data result) = if_positive E (cr_personTracking completeResults) \<and>
      (\<forall>xs. cr_personTracking completeResults = JArr xs \<longrightarrow>
         person_tracking (data result) = Some (JArr xs)) \<and>
      (quiet onProgress \<longrightarrow>
         (\<exists>result'. snd (mergeAnnotationData E ?fs onProgress) = Inr result' \<and>
            meta_warnings (result_metadata result) = meta_warnings (result_metadata result')))"
    if a: "snd (mergeAnnotationData E ?ds onProgress) = Inr result" for result
  proof -
    from a obtain v info d where v: "videoFile ?s = Some v"
      and i: "extractVideoInfo E v = Inr info"
      and b: "build_data E ?s info = Inr d"
      and r: "result = \<lparr>data = d, result_metadata = report E ?s\<rparr>"
      unfolding mergeAnnotationData_def by (rule finish_Inr)
    from r have k: "person_tracking (data result) = if_positive E (cr_personTracking completeResults)"
      by (simp add: build_data_fields [OF b] pt)
    have arr: "person_tracking (data result) = Some (JArr xs)"
      if "cr_personTracking completeResults = JArr xs" for xs
      using that assms(4) k by (simp add: if_positive_array)
    have w: "\<exists>result'. snd (mergeAnnotationData E ?fs onProgress) = Inr result' \<and>
        meta_warnings (result_metadata result) = meta_warnings (result_metadata result')"
      if q: "quiet onProgress"
    proof -
      have c0: "core ?start = core ?start'"
        using assms(1) q
        by (simp add: loop_start_def find_complete_results_filtered core_processCompleteResults)
      have cc: "core ?s = core ?s'"
        unfolding accumulate_run loop_objects_filtered
        by (rule core_run_files_filtered [OF ne c0 q])
      have "snd (mergeAnnotationData E ?fs onProgress) =
          Inr \<lparr>data = d, result_metadata = report E ?s'\<rparr>"
        using v i b
        by (simp add: mergeAnnotationData_def finish_quiet [OF q] core_eqs(3) [OF cc, symmetric]
            core_build_data [OF cc, symmetric])
      with r core_eqs(1) [OF cc] show ?thesis by (simp add: report_fields)
    qed
    from k arr w show ?thesis by blast
  qed
  from calls pt res show ?thesis by blast
qed

text \<open>The run on the five objects, and on the four that remain without \<open>person.json\<close>.\<close>

theorem bundle_person_tracking_precedence_witness:
  "find_complete_results demo_files = Some (0, demo_complete) \<and>
   call_progress None (object_label (0, demo_complete)) 0 (length demo_files) initial_state =
     None \<and>
   parseCompleteResults demo_env (file_of demo_complete) = Inr demo_extract \<and>
   \<not> length_is_zero (cr_personTracking demo_extract) \<and>
   quiet None \<and>
   snd (mergeAnnotationData demo_env demo_files None) = Inr demo_result \<and>
   Call ParseCOCOPersonData person_json \<notin>
     set (fst (mergeAnnotationData demo_env demo_files None)) \<and>
   person_tracking (data demo_result) = Some (JArr [JObj [(''id'', JNum 1)]]) \<and>
   meta_warnings (result_metadata demo_result) =
     [''Failed to parse corrupt.vtt: Invalid WebVTT''] \<and>
   merge_report demo_env (filter (\<lambda>f. not_person_tracking (snd f)) demo_files) None =
     Some (result_metadata demo_result\<lparr>meta_filesProcessed := 4\<rparr>)"
proof -
  have h2: "call_progress None (object_label (0, demo_complete)) 0 (length demo_files)
      initial_state = None"
    by (simp add: call_progress_def)
  have e: "parseCompleteResults demo_env (file_of (snd (0::nat, demo_complete))) = Inr demo_extract"
    using demo_extraction by simp
  have h4: "\<not> length_is_zero (cr_personTracking demo_extract)"
    by (simp add: demo_extract_def length_is_zero_def)
  have q: "quiet None" by (simp add: quiet_def)
  have p: "person_tracking (data demo_result) = Some (JArr [JObj [(''id'', JNum 1)]])"
    "meta_warnings (result_metadata demo_result) =
       [''Failed to parse corrupt.vtt: Invalid WebVTT'']"
    by (simp_all add: demo_result_def)
  have r: "merge_report demo_env (filter (\<lambda>f. not_person_tracking (snd f)) demo_files) None =
     Some (result_metadata demo_result\<lparr>meta_filesProcessed := 4\<rparr>)"
    by (simp add: merge_report_def not_person_tracking_def run_defs demo_defs)
  from bundle_person_tracking_precedence [OF demo_found h2 e h4]
  have "Call ParseCOCOPersonData person_json \<notin>
      set (fst (mergeAnnotationData demo_env demo_files None))"
    by blast
  with demo_found h2 demo_extraction h4 q demo_run p r show ?thesis by simp
qed

text \<open>
  The claim as stated fails: a bundle without person results leaves the slot empty, and
  the decoder is called for the separate person_tracking file.
\<close>

theorem bundle_person_tracking_precedence_counterexample:
  "dtype demo_bare_complete = CompleteResults \<and> dtype demo_person = PersonTracking \<and>
   Call ParseCOCOPersonData person_json \<in>
     set (fst (mergeAnnotationData demo_env
                 [(0, demo_bare_complete), (1, demo_person), (2, demo_video)] None))"
  by (simp add: run_defs demo_defs)

subsection \<open>Files processed\<close>

lemma zero_reads: "length_is_zero v \<Longrightarrow> reads E v"
  by (simp add: length_is_zero_def reads_def length_gt0_def to_number_def)

lemma processFile_faceAnalysis:
  "\<not> length_is_zero (faceAnalysis s) \<Longrightarrow>
   faceAnalysis (processFile E cb t d s) = faceAnalysis s"
  by (cases "dtype d";
      cases "call_progress cb (processing_label (file_of d)) (processedFiles s) t s")
     (simp_all add: step_defs split: sum.splits)

lemma processFile_sceneDetection:
  "\<not> length_is_zero (sceneDetection s) \<Longrightarrow>
   sceneDetection (processFile E cb t d s) = sceneDetection s"
  by (cases "dtype d";
      cases "call_progress cb (processing_label (file_of d)) (processedFiles s) t s")
     (simp_all add: step_defs split: sum.splits)

lemma run_files_faceAnalysis:
  "\<not> length_is_zero (faceAnalysis s) \<Longrightarrow>
   faceAnalysis (run_files E cb t ds s) = faceAnalysis s"
  by (induction ds arbitrary: s) (simp_all add: processFile_faceAnalysis)

lemma run_files_sceneDetection:
  "\<not> length_is_zero (sceneDetection s) \<Longrightarrow>
   sceneDetection (run_files E cb t ds s) = sceneDetection s"
  by (induction ds arbitrary: s) (simp_all add: processFile_sceneDetection)

lemma processCompleteResults_slots:
  assumes "call_progress cb (processing_label (file_of crf)) (processedFiles s) t s = None"
    and "parseCompleteResults E (file_of crf) = Inr r"
  shows "personTracking (processCompleteResults E cb t crf s) = cr_personTracking r"
    and "faceAnalysis (processCompleteResults E cb t crf s) = cr_faceAnalysis r"
    and "sceneDetection (processCompleteResults E cb t crf s) = cr_sceneDetection r"
  using assms
  by (simp_all add: processCompleteResults_cases Let_def adopted_same push_warning_def
      split: option.splits)

text \<open>
  A value of the bundle whose length comparison throws stays in its slot to the end, where
  the comparison is made again outside any \<open>try\<close>: a run that returns has read all three.
\<close>

lemma success_reads:
  assumes "snd (mergeAnnotationData E objs cb) = Inr result"
    and "find_complete_results objs = Some c"
    and "call_progress cb (object_label c) 0 (length objs) initial_state = None"
    and "parseCompleteResults E (file_of (snd c)) = Inr r"
  shows "reads E (cr_personTracking r) \<and> reads E (cr_faceAnalysis r) \<and>
         reads E (cr_sceneDetection r)"
proof -
  let ?s = "accumulate E objs cb" and ?start = "loop_start E cb objs"
  have z: "processedFiles initial_state = 0" by (simp add: initial_state_def)
  from assms(1) obtain info d where "build_data E ?s info = Inr d"
    unfolding mergeAnnotationData_def by (rule finish_Inr)
  then have rd: "reads E (personTracking ?s)" "reads E (sceneDetection ?s)"
    "reads E (faceAnalysis ?s)"
    using build_data_reads [of E ?s info] by auto
  have st: "personTracking ?start = cr_personTracking r"
    "faceAnalysis ?start = cr_faceAnalysis r" "sceneDetection ?start = cr_sceneDetection r"
    using assms(2,3,4)
    by (simp_all add: loop_start_def processCompleteResults_slots z object_label_def)
  have p: "reads E (cr_personTracking r)"
  proof (cases "length_is_zero (cr_personTracking r)")
    case True
    then show ?thesis by (rule zero_reads)
  next
    case False
    then have "personTracking ?s = cr_personTracking r"
      by (simp add: accumulate_run run_files_personTracking st)
    with rd(1) show ?thesis by simp
  qed
  have f: "reads E (cr_faceAnalysis r)"
  proof (cases "length_is_zero (cr_faceAnalysis r)")
    case True
    then show ?thesis by (rule zero_reads)
  next
    case False
    then have "faceAnalysis ?s = cr_faceAnalysis r"
      by (simp add: accumulate_run run_files_faceAnalysis st)
    with rd(3) show ?thesis by simp
  qed
  have sc: "reads E (cr_sceneDetection r)"
  proof (cases "length_is_zero (cr_sceneDetection r)")
    case True
    then show ?thesis by (rule zero_reads)
  next
    case False
    then have "sceneDetection ?s = cr_sceneDetection r"
      by (simp add: accumulate_run run_files_sceneDetection st)
    with rd(2) show ?thesis by simp
  qed
  from p f sc show ?thesis by simp
qed

lemma extracted_completes:
  assumes "snd (mergeAnnotationData E objs cb) = Inr result"
  shows "bundle_completes E cb objs = bundle_extracted E cb objs"
proof (cases "find_complete_results objs")
  case None
  then show ?thesis by (simp add: bundle_completes_def bundle_extracted_def)
next
  case (Some c)
  show ?thesis
  proof (cases "call_progress cb (object_label c) 0 (length objs) initial_state")
    case (Some e)
    with \<open>find_complete_results objs = Some c\<close> show ?thesis
      by (simp add: bundle_completes_def bundle_extracted_def)
  next
    case None
    show ?thesis
    proof (cases "parseCompleteResults E (file_of (snd c))")
      case (Inl e)
      with None \<open>find_complete_results objs = Some c\<close> show ?thesis
        by (simp add: bundle_completes_def bundle_extracted_def decoded_ok_def)
    next
      case (Inr r)
      from success_reads [OF assms \<open>find_complete_results objs = Some c\<close> None Inr]
      show ?thesis
        using None Inr \<open>find_complete_results objs = Some c\<close>
        by (simp add: bundle_completes_def bundle_extracted_def decoded_ok_def)
    qed
  qed
qed

lemma filesProcessed_formula:
  assumes "snd (mergeAnnotationData E detectedFiles onProgress) = Inr result"
  shows "meta_filesProcessed (result_metadata result) =
           length (loop_objects detectedFiles) +
           (if bundle_completes E onProgress detectedFiles then 1 else 0) \<and>
         (find_complete_results detectedFiles = None \<or>
          (bundle_once detectedFiles \<and> bundle_completes E onProgress detectedFiles) \<longrightarrow>
            meta_filesProcessed (result_metadata result) = length detectedFiles) \<and>
         (find_complete_results detectedFiles \<noteq> None \<and> bundle_once detectedFiles \<and>
          \<not> bundle_completes E onProgress detectedFiles \<longrightarrow>
            meta_filesProcessed (result_metadata result) = length detectedFiles - 1)"
proof -
  from assms obtain d where
    "result = \<lparr>data = d, result_metadata = report E (accumulate E detectedFiles onProgress)\<rparr>"
    unfolding mergeAnnotationData_def by (rule finish_Inr)
  then have c: "meta_filesProcessed (result_metadata result) =
      length (loop_objects detectedFiles) +
      (if bundle_completes E onProgress detectedFiles then 1 else 0)"
    by (simp add: report_fields accumulate_processedFiles)
  have n: "length (loop_objects detectedFiles) = length detectedFiles"
    if "find_complete_results detectedFiles = None"
    using that by (simp add: loop_objects_None)
  have nb: "\<not> bundle_completes E onProgress detectedFiles"
    if "find_complete_results detectedFiles = None"
    using that by (simp add: bundle_completes_def)
  have o: "length (loop_objects detectedFiles) + 1 = length detectedFiles"
    if "find_complete_results detectedFiles \<noteq> None" "bundle_once detectedFiles"
  proof -
    from that(1) obtain c where f: "find_complete_results detectedFiles = Some c" by auto
    have "filter (\<lambda>f. Some f = find_complete_results detectedFiles) detectedFiles \<noteq> []"
      using bundle_occurs [OF f] by simp
    then have "1 \<le> length (filter (\<lambda>f. Some f = find_complete_results detectedFiles)
        detectedFiles)"
      by (simp add: Suc_le_eq)
    with that(2) have "length (filter (\<lambda>f. Some f = find_complete_results detectedFiles)
        detectedFiles) = 1"
      unfolding bundle_once_def by linarith
    with length_loop_objects [of detectedFiles] show ?thesis by linarith
  qed
  have some: "find_complete_results detectedFiles \<noteq> None"
    if "bundle_completes E onProgress detectedFiles"
    using that by (auto simp: bundle_completes_def split: option.splits)
  have first: "meta_filesProcessed (result_metadata result) = length detectedFiles"
    if "find_complete_results detectedFiles = None \<or>
      (bundle_once detectedFiles \<and> bundle_completes E onProgress detectedFiles)"
    using that
  proof
    assume a: "find_complete_results detectedFiles = None"
    from c n [OF a] nb [OF a] show ?thesis by simp
  next
    assume a: "bundle_once detectedFiles \<and> bundle_completes E onProgress detectedFiles"
    with some have "length (loop_objects detectedFiles) + 1 = length detectedFiles"
      by (intro o) auto
    with c a show ?thesis by simp
  qed
  have second: "meta_filesProcessed (result_metadata result) = length detectedFiles - 1"
    if "find_complete_results detectedFiles \<noteq> None \<and> bundle_once detectedFiles \<and>
      \<not> bundle_completes E onProgress detectedFiles"
  proof -
    from that have "length (loop_objects detectedFiles) + 1 = length detectedFiles"
      by (intro o) auto
    with c that show ?thesis by simp
  qed
  from c first second show ?thesis by blast
qed

text \<open>
  Claim C9, as the code has it. When the merge returns, \<open>filesProcessed\<close> is the number
  of elements of the array other than the complete-results object found first, plus one
  when that object has been extracted (its progress call and the extractor returned).
  So it is the length of the array when there is no complete-results object, or when
  the one found stands at one place of the array only and has been extracted; it is one
  less when that object stands at one place only and has not been extracted. Every
  other element is counted, whatever its type and whatever its decoder does.
\<close>

theorem filesProcessed_count:
  assumes "snd (mergeAnnotationData E detectedFiles onProgress) = Inr result"
  shows "meta_filesProcessed (result_metadata result) =
           length (loop_objects detectedFiles) +
           (if bundle_extracted E onProgress detectedFiles then 1 else 0) \<and>
         (find_complete_results detectedFiles = None \<or>
          (bundle_once detectedFiles \<and> bundle_extracted E onProgress detectedFiles) \<longrightarrow>
            meta_filesProcessed (result_metadata result) = length detectedFiles) \<and>
         (find_complete_results detectedFiles \<noteq> None \<and> bundle_once detectedFiles \<and>
          \<not> bundle_extracted E onProgress detectedFiles \<longrightarrow>
            meta_filesProcessed (result_metadata result) = length detectedFiles - 1)"
  using filesProcessed_formula [OF assms, unfolded extracted_completes [OF assms]] .

text \<open>
  Five objects, one of them a bundle that is extracted and one a transcript whose decoder
  fails: five are counted. A bundle that does not parse and a video: one is counted.
\<close>

theorem filesProcessed_count_witness:
  "snd (mergeAnnotationData demo_env demo_files None) = Inr demo_result \<and>
   bundle_once demo_files \<and> bundle_extracted demo_env None demo_files \<and>
   meta_filesProcessed (result_metadata demo_result) = 5 \<and> length demo_files = 5 \<and>
   snd (mergeAnnotationData demo_env demo_failed None) = Inr demo_failed_result \<and>
   find_complete_results demo_failed = Some (0, demo_corrupt_complete) \<and>
   bundle_once demo_failed \<and> \<not> bundle_extracted demo_env None demo_failed \<and>
   meta_filesProcessed (result_metadata demo_failed_result) = 1 \<and> length demo_failed = 2"
proof -
  have a: "bundle_extracted demo_env None demo_files"
    by (simp add: bundle_extracted_def demo_found call_progress_def decoded_ok_def
        demo_extraction)
  have f: "find_complete_results demo_failed = Some (0, demo_corrupt_complete)"
    by (simp add: find_complete_results_def demo_failed_def demo_corrupt_complete_def
        detected_def)
  have o: "bundle_once demo_failed"
    by (simp add: bundle_once_def find_complete_results_def demo_defs)
  have n: "\<not> bundle_extracted demo_env None demo_failed"
    unfolding bundle_extracted_def f
    by (simp add: decoded_ok_def call_progress_def parseCompleteResults_def demo_defs)
  from filesProcessed_count [OF demo_run] filesProcessed_count [OF demo_failed_run]
    demo_run demo_failed_run demo_once a f o n
  show ?thesis by (simp add: demo_files_def demo_failed_def)
qed

text \<open>
  The claim as stated fails: an array that holds the bundle object at two places and a
  video has three elements; the bundle is extracted, and two are counted, because the
  loop skips every element that is the object found first.
\<close>

theorem filesProcessed_count_counterexample:
  "length demo_twice = 3 \<and>
   find_complete_results demo_twice = Some (0, demo_complete) \<and>
   parseCompleteResults demo_env (file_of demo_complete) = Inr demo_extract \<and>
   map_option meta_filesProcessed (merge_report demo_env demo_twice None) = Some 2"
  by (simp add: merge_report_def run_defs demo_defs)

subsection \<open>Failures and warnings\<close>






















subsection \<open>The sniffers\<close>

lemma complete_results_shape_fields:
  "catch_false (complete_results_shape parsed) = complete_results_fields parsed"
  by (cases parsed)
     (auto simp: complete_results_shape_def complete_results_fields_def truthy_field_def
        guarded_def catch_false_def split: option.splits)

lemma isValidCompleteResults_iff:
  "isValidCompleteResults E f =
     (case JSON_parse E (content f) of Inl e \<Rightarrow> False | Inr parsed \<Rightarrow> complete_results_fields parsed)"
  by (simp add: isValidCompleteResults_def complete_results_shape_fields split: sum.splits)

lemma detectJSONType_complete:
  "isValidCompleteResults E f \<Longrightarrow>
   detectJSONType E f =
     \<lparr>file_of = f, dtype = CompleteResults, pipeline = Some ''complete_results'', confidence = 0.95\<rparr>"
  by (simp add: detectJSONType_def detected_def)

lemma detectFileType_delegated:
  "delegated_to_json f \<Longrightarrow> detectFileType E f = detectJSONType E f"
  by (simp add: delegated_to_json_def detectFileType_def Let_def)

text \<open>
  Claim C6, as the code has it. The complete-results sniffer parses the whole content and
  matches exactly when \<open>video_path\<close>, \<open>pipeline_results\<close>, \<open>config\<close> and \<open>start_time\<close> hold
  truthy values (not \<open>null\<close>, \<open>false\<close>, \<open>0\<close> or the empty string) and \<open>total_duration\<close> is
  not undefined; a parse failure is no match. On a match the JSON sub-classification
  returns complete_results at 0.95 whatever the prefix of the file parses to, and so
  does the classifier for a file it hands to the sub-classification.
\<close>

theorem complete_results_sniffer_first:
  "(isValidCompleteResults E f \<longleftrightarrow>
      (case JSON_parse E (content f) of
         Inl e \<Rightarrow> False
       | Inr parsed \<Rightarrow> complete_results_fields parsed)) \<and>
   (isValidCompleteResults E f \<longrightarrow>
      detectJSONType E f =
        \<lparr>file_of = f, dtype = CompleteResults, pipeline = Some ''complete_results'',
         confidence = 0.95\<rparr>) \<and>
   (isValidCompleteResults E f \<and> delegated_to_json f \<longrightarrow>
      detectFileType E f =
        \<lparr>file_of = f, dtype = CompleteResults, pipeline = Some ''complete_results'',
         confidence = 0.95\<rparr>)"
  using isValidCompleteResults_iff [of E f] detectJSONType_complete [of E f]
    detectFileType_delegated [of f E]
  by simp

text \<open>The bundle file.\<close>

theorem complete_results_sniffer_first_witness:
  "isValidCompleteResults demo_env results_json \<and> delegated_to_json results_json \<and>
   detectJSONType demo_env results_json =
     \<lparr>file_of = results_json, dtype = CompleteResults, pipeline = Some ''complete_results'',
      confidence = 0.95\<rparr> \<and>
   detectFileType demo_env results_json =
     \<lparr>file_of = results_json, dtype = CompleteResults, pipeline = Some ''complete_results'',
      confidence = 0.95\<rparr>"
proof -
  have a: "isValidCompleteResults demo_env results_json"
    by (simp add: isValidCompleteResults_def complete_results_shape_def guarded_def catch_false_def
        demo_defs)
  have b: "delegated_to_json results_json"
    by (simp add: delegated_to_json_def toLowerCase_def toLowerChar_def pop_or_empty_def
        startsWith_def results_json_def)
  from complete_results_sniffer_first [of demo_env results_json] a b show ?thesis by simp
qed

text \<open>
  The claim as stated fails: all five fields are present, \<open>start_time\<close> is \<open>0\<close>, and the
  sniffer does not match.
\<close>

theorem complete_results_sniffer_first_counterexample:
  "spec_complete_results_match demo_env zero_start_json \<and>
   \<not> isValidCompleteResults demo_env zero_start_json"
  by (simp add: spec_complete_results_match_def has_field_def sniff_defs demo_defs)

lemma first_has_eval:
  "guarded ov (\<lambda>a. guarded (elem0 a) (has_key k)) =
     (if truthy_primitive (first_of ov) then None else Some (opt_has_field (first_of ov) k))"
proof (cases "first_of ov")
  case None
  then show ?thesis
    by (auto simp: guarded_def first_of_def truthy_primitive_def opt_has_field_def
        split: option.splits if_splits)
next
  case (Some x)
  then have e: "guarded ov (\<lambda>a. guarded (elem0 a) (has_key k)) =
      (if truthy x then has_key k x else Some False)"
    by (auto simp: guarded_def first_of_def split: option.splits if_splits)
  show ?thesis unfolding e Some
    by (cases x) (simp_all add: truthy_primitive_def opt_has_field_def has_field_def)
qed

lemma js_or_eval:
  "js_or None r = None"
  "js_or (Some b) r = (if b then Some True else r)"
  by (simp_all add: js_or_def)

lemma js_and_eval:
  "js_and None r = None"
  "js_and (Some b) r = (if b then r else Some False)"
  by (simp_all add: js_and_def)

lemma truthy_primitive_no_field: "truthy_primitive ox \<Longrightarrow> \<not> opt_has_field ox k"
  by (auto simp: truthy_primitive_def opt_has_field_def has_field_def
      split: option.splits json.splits)

lemma either_first_has_eval:
  "catch_false (js_or (guarded oa (\<lambda>a. guarded (elem0 a) (has_key k)))
                      (guarded orr (\<lambda>r. guarded (elem0 r) (has_key k)))) =
   (opt_has_field (first_of oa) k \<or>
    (\<not> truthy_primitive (first_of oa) \<and> opt_has_field (first_of orr) k))"
  using truthy_primitive_no_field [of "first_of oa" k] truthy_primitive_no_field [of "first_of orr" k]
  by (auto simp: first_has_eval js_or_eval catch_false_def)

lemma face_shape_match: "catch_false (face_shape parsed) = face_match parsed"
proof (cases parsed)
  case (JArr xs)
  show ?thesis
  proof (cases xs)
    case Nil
    with JArr show ?thesis by (simp add: face_shape_def face_match_def js_or_eval catch_false_def)
  next
    case (Cons x ys)
    with JArr show ?thesis
      by (cases x)
        (simp_all add: face_shape_def face_match_def js_or_eval js_and_eval catch_false_def
          guarded_def has_field_def)
  qed
next
  case JNull
  then show ?thesis by (simp add: face_shape_def face_match_def catch_false_def)
next
  case (JBool b)
  then show ?thesis
    by (simp add: face_shape_def face_match_def either_first_has_eval del: get_prop.simps)
next
  case (JNum n)
  then show ?thesis
    by (simp add: face_shape_def face_match_def either_first_has_eval del: get_prop.simps)
next
  case (JStr s)
  then show ?thesis
    by (simp add: face_shape_def face_match_def either_first_has_eval del: get_prop.simps)
next
  case (JObj kv)
  then show ?thesis
    by (simp add: face_shape_def face_match_def either_first_has_eval del: get_prop.simps)
qed

lemma isValidFaceAnalysis_iff:
  "isValidFaceAnalysis E f =
     (case JSON_parse E (slice_text f 2000) of Inl e \<Rightarrow> False | Inr parsed \<Rightarrow> face_match parsed)"
  by (simp add: isValidFaceAnalysis_def face_shape_match split: sum.splits)

lemma detectJSONType_face:
  "\<not> isValidCompleteResults E f \<Longrightarrow> JSON_parse E (slice_text f 5000) = Inr sample \<Longrightarrow>
   isValidFaceAnalysis E f \<Longrightarrow>
   detectJSONType E f =
     \<lparr>file_of = f, dtype = FaceAnalysis, pipeline = Some ''face_analysis'', confidence = 0.8\<rparr>"
  by (simp add: detectJSONType_def detected_def)

text \<open>
  Claim C7, as the code has it. The face-analysis sniffer matches exactly when the first
  2000 bytes parse as JSON and the value is an empty sequence, or a sequence whose first
  element is an object with both \<open>face_id\<close> and \<open>attributes\<close>, or a value other than a
  sequence and \<open>null\<close> whose \<open>annotations[0]\<close> is an object with \<open>face_id\<close>, or whose
  \<open>results[0]\<close> is one while \<open>annotations[0]\<close> is not a truthy number, string or
  boolean. When the sub-classification reaches this check (no complete-results match,
  the 5000-byte prefix parses) and the sniffer matches, the file is face_analysis at 0.8.
\<close>

theorem face_analysis_sniffer:
  "(isValidFaceAnalysis E f \<longleftrightarrow>
      (case JSON_parse E (slice_text f 2000) of
         Inl e \<Rightarrow> False
       | Inr parsed \<Rightarrow> face_match parsed)) \<and>
   (\<not> isValidCompleteResults E f \<and> JSON_parse E (slice_text f 5000) = Inr sample \<and>
    isValidFaceAnalysis E f \<longrightarrow>
      detectJSONType E f =
        \<lparr>file_of = f, dtype = FaceAnalysis, pipeline = Some ''face_analysis'',
         confidence = 0.8\<rparr>)"
  using isValidFaceAnalysis_iff [of E f] detectJSONType_face [of E f sample]
  by simp

text \<open>A file with one face record.\<close>

theorem face_analysis_sniffer_witness:
  "\<not> isValidCompleteResults demo_env faces_json \<and>
   JSON_parse demo_env (slice_text faces_json 5000) =
     Inr (JArr [JObj [(''face_id'', JNum 1), (''attributes'', JObj [])]]) \<and>
   isValidFaceAnalysis demo_env faces_json \<and>
   detectJSONType demo_env faces_json =
     \<lparr>file_of = faces_json, dtype = FaceAnalysis, pipeline = Some ''face_analysis'',
      confidence = 0.8\<rparr>"
proof -
  have a: "\<not> isValidCompleteResults demo_env faces_json"
    by (simp add: isValidCompleteResults_def complete_results_shape_def guarded_def catch_false_def
        demo_defs)
  have b: "JSON_parse demo_env (slice_text faces_json 5000) =
     Inr (JArr [JObj [(''face_id'', JNum 1), (''attributes'', JObj [])]])"
    by (simp add: slice_text_def demo_defs)
  have c: "isValidFaceAnalysis demo_env faces_json"
    by (simp add: isValidFaceAnalysis_def face_shape_def guarded_def catch_false_def js_or_def
        js_and_def slice_text_def demo_defs)
  from face_analysis_sniffer [of demo_env faces_json] a b c show ?thesis by simp
qed

text \<open>
  The claim as stated fails: the empty sequence has no first element, and the sniffer
  matches it.
\<close>

theorem face_analysis_sniffer_counterexample:
  "isValidFaceAnalysis demo_env empty_json \<and> \<not> spec_face_match demo_env empty_json \<and>
   detectJSONType demo_env empty_json =
     \<lparr>file_of = empty_json, dtype = FaceAnalysis, pipeline = Some ''face_analysis'',
      confidence = 0.8\<rparr>"
  by (simp add: spec_face_match_def spec_face_shape_def sniff_defs demo_defs)

end
